theory Spec2Isabelle
  imports Main
begin

section \<open>The pipeline orchestrator (orchestrator.py)\<close>

text \<open>
  A shallow embedding of class \<open>Orchestrator\<close>. Stage names, statuses, run modes and
  brand names are Python strings and stay strings here. The two database tables are lists
  of rows, the external processes are an oracle \<open>popen\<close> from the launched command to
  its outcome, and the clock is a function from the number of timestamps read so far to
  the time. Diagnostic messages are lists of Unicode code points, because the source
  truncates them by code point (\<open>[:500]\<close>) and one of them is Korean text.
\<close>

subsection \<open>Data\<close>

type_synonym msg = "nat list"

definition text_of :: "string \<Rightarrow> msg" where
  "text_of s = map of_char s"

record datetime =
  year :: nat
  month :: nat
  day :: nat
  hour :: nat
  minute :: nat
  second :: nat

datatype proc_result = Exit int | Raised msg

datatype error = ValueError | KeyError

record command =
  script :: string
  target :: string

record env =
  executable :: string
  popen :: "string list \<Rightarrow> proc_result"
  now :: "nat \<Rightarrow> datetime"

record brand_info =
  mall_name :: string
  mall_brand_name_en :: string
  buyma_brand_name :: "string option"
  is_active :: bool

record control_row =
  c_batch_id :: "string option"
  c_mall_name :: string
  c_brand_name :: string
  c_run_mode :: string
  c_stage :: string
  c_status :: string
  c_error_msg :: "msg option"
  c_started_at :: "datetime option"
  c_updated_at :: "datetime option"

record batch_row =
  b_batch_id :: string
  b_run_mode :: string
  b_status :: string
  b_total_brands :: "nat option"
  b_success_brands :: "nat option"
  b_end_time :: "datetime option"

text \<open>
  One \<open>launch\<close> is one call of \<open>subprocess.Popen\<close>, tagged with the brand and the
  stage it was made for; \<open>launched\<close> lists the calls in the order they were made.
\<close>

record launch =
  l_mall :: string
  l_brand :: string
  l_stage :: string
  l_argv :: "string list"

record world =
  pipeline_control :: "control_row list"
  pipeline_batches :: "batch_row list"
  ticks :: nat
  launched :: "launch list"

record orchestrator =
  run_mode :: string
  mall_filter :: "string option"
  brand_filter :: "string option"
  exclude_brands :: "string list"
  batch_id :: "string option"
  stages :: "string list"
  final_stage :: string

subsection \<open>Construction: the stage list and the final stage\<close>

definition ALL_STAGES :: "string list" where
  "ALL_STAGES = [''COLLECT'', ''CONVERT'', ''IMAGE'', ''PRICE'', ''REGISTER'']"

text \<open>\<open>str.upper\<close> on ASCII letters; other characters are left as they are.\<close>

definition upper_char :: "char \<Rightarrow> char" where
  "upper_char c =
     (let n = (of_char c :: nat) in if 97 \<le> n \<and> n \<le> 122 then char_of (n - 32) else c)"

definition upper :: "string \<Rightarrow> string" where
  "upper s = map upper_char s"


text \<open>Python truthiness of an optional string: \<open>None\<close> and \<open>''\<close> are false.\<close>

fun truthy :: "string option \<Rightarrow> bool" where
  "truthy None = False"
| "truthy (Some s) = (s \<noteq> [])"



text \<open>\<open>stage_locks\<close>: one \<open>threading.Semaphore(1)\<close> per stage of the run.\<close>

definition stage_locks :: "orchestrator \<Rightarrow> (string \<rightharpoonup> nat)" where
  "stage_locks orch = map_of (map (\<lambda>s. (s, 1)) (stages orch))"

subsection \<open>The stage state store (table pipeline_control)\<close>

text \<open>
  Modelled from the spec: the unique key of table \<open>pipeline_control\<close>, whose schema is
  not in the repository (the statement's \<open>ON DUPLICATE KEY UPDATE\<close> relies on it): a
  stage record is "keyed by (batch_id, entity_key, stage_name), unique", the entity key
  being the pair of \<open>mall_name\<close> and \<open>brand_name\<close> that \<open>get_stage_status\<close> selects on.
  A NULL batch id matches no row.
\<close>

definition key_match ::
  "string option \<Rightarrow> string \<Rightarrow> string \<Rightarrow> string \<Rightarrow> control_row \<Rightarrow> bool" where
  "key_match bid mall brand stage r \<longleftrightarrow>
     bid \<noteq> None \<and> c_batch_id r = bid \<and> c_mall_name r = mall \<and> c_brand_name r = brand
       \<and> c_stage r = stage"

definition get_stage_status :: "orchestrator \<Rightarrow> world \<Rightarrow> string \<Rightarrow> string \<Rightarrow> string \<Rightarrow> string" where
  "get_stage_status orch w mall brand stage =
     (case find (key_match (batch_id orch) mall brand stage) (pipeline_control w) of
        None \<Rightarrow> ''PENDING''
      | Some r \<Rightarrow> c_status r)"

text \<open>
  The upsert. A new row gets \<open>started_at = NOW()\<close> and no \<open>updated_at\<close> from the
  statement; an existing row gets the new status and message and \<open>updated_at = NOW()\<close>.
\<close>

definition upsert ::
  "control_row list \<Rightarrow> string option \<Rightarrow> string \<Rightarrow> string \<Rightarrow> string \<Rightarrow> string \<Rightarrow> string
     \<Rightarrow> msg option \<Rightarrow> datetime \<Rightarrow> control_row list" where
  "upsert rows bid mall brand rm stage status err t =
     (if \<exists>r \<in> set rows. key_match bid mall brand stage r then
        map (\<lambda>r. if key_match bid mall brand stage r
                  then r\<lparr>c_status := status, c_error_msg := err, c_updated_at := Some t\<rparr>
                  else r) rows
      else rows @ [\<lparr>c_batch_id = bid, c_mall_name = mall, c_brand_name = brand,
                     c_run_mode = rm, c_stage = stage, c_status = status, c_error_msg = err,
                     c_started_at = Some t, c_updated_at = None\<rparr>])"

definition update_stage_status ::
  "env \<Rightarrow> orchestrator \<Rightarrow> world \<Rightarrow> string \<Rightarrow> string \<Rightarrow> string \<Rightarrow> string \<Rightarrow> msg option \<Rightarrow> world" where
  "update_stage_status e orch w mall brand stage status err =
     w\<lparr>pipeline_control :=
          upsert (pipeline_control w) (batch_id orch) mall brand (run_mode orch) stage status err
            (now e (ticks w)),
       ticks := ticks w + 1\<rparr>"

subsection \<open>The worker invocation layer\<close>

definition argv :: "env \<Rightarrow> command \<Rightarrow> string list" where
  "argv e c = [executable e, script c, ''--brand'', target c]"

definition commands_for :: "string \<Rightarrow> string \<Rightarrow> command list" where
  "commands_for stage tgt =
     (if stage = ''COLLECT'' then [\<lparr>script = ''okmall_all_brands_collector.py'', target = tgt\<rparr>]
      else if stage = ''CONVERT'' then [\<lparr>script = ''raw_to_ace_converter.py'', target = tgt\<rparr>]
      else if stage = ''IMAGE'' then
        [\<lparr>script = ''image_collector_parallel.py'', target = tgt\<rparr>,
         \<lparr>script = ''r2_image_uploader.py'', target = tgt\<rparr>]
      else if stage = ''PRICE'' then [\<lparr>script = ''buyma_lowest_price_collector.py'', target = tgt\<rparr>]
      else if stage = ''REGISTER'' then [\<lparr>script = ''buyma_product_register.py'', target = tgt\<rparr>]
      else [])"

text \<open>The Korean prefix of the diagnostic of a non-zero exit, as code points.\<close>

definition fail_prefix :: msg where
  "fail_prefix = [49828, 53356, 47549, 53944, 32, 49892, 54665, 32, 49892, 54056, 58, 32]"

definition log_launch :: "world \<Rightarrow> string \<Rightarrow> string \<Rightarrow> string \<Rightarrow> string list \<Rightarrow> world" where
  "log_launch w mall brand stage av =
     w\<lparr>launched := launched w @ [\<lparr>l_mall = mall, l_brand = brand, l_stage = stage, l_argv = av\<rparr>]\<rparr>"

text \<open>
  The loop over the commands of a stage: a non-zero exit (\<open>CalledProcessError\<close>) or any
  other exception marks the stage ERROR and returns False at once; after the last command
  the stage is marked DONE.
\<close>

fun run_commands ::
  "env \<Rightarrow> orchestrator \<Rightarrow> string \<Rightarrow> string \<Rightarrow> string \<Rightarrow> command list \<Rightarrow> world \<Rightarrow> world \<times> bool" where
  "run_commands e orch mall brand stage [] w =
     (update_stage_status e orch w mall brand stage ''DONE'' None, True)"
| "run_commands e orch mall brand stage (c # cs) w =
     (let w1 = log_launch w mall brand stage (argv e c) in
      case popen e (argv e c) of
        Exit rc \<Rightarrow>
          if rc \<noteq> 0 then
            (update_stage_status e orch w1 mall brand stage ''ERROR''
               (Some (take 500 (fail_prefix @ text_of (script c)))), False)
          else run_commands e orch mall brand stage cs w1
      | Raised m \<Rightarrow>
          (update_stage_status e orch w1 mall brand stage ''ERROR'' (Some (take 500 m)), False))"

definition execute_worker ::
  "env \<Rightarrow> orchestrator \<Rightarrow> world \<Rightarrow> string \<Rightarrow> string \<Rightarrow> string \<Rightarrow> string \<Rightarrow> world \<times> bool" where
  "execute_worker e orch w mall brand_id_name stage target_brand_name =
     run_commands e orch mall brand_id_name stage (commands_for stage target_brand_name)
       (update_stage_status e orch w mall brand_id_name stage ''RUNNING'' None)"

subsection \<open>The entity pipeline runner\<close>

definition buyma_brand :: "brand_info \<Rightarrow> string" where
  "buyma_brand b =
     (if truthy (buyma_brand_name b) then the (buyma_brand_name b) else mall_brand_name_en b)"

text \<open>
  The body of the \<open>with self.stage_locks[stage]\<close> block for one stage. The boolean is
  False where the source returns False from the pipeline and True where it goes on to the
  next stage (\<open>continue\<close>, or the end of the body).
\<close>

definition stage_body :: "env \<Rightarrow> orchestrator \<Rightarrow> world \<Rightarrow> brand_info \<Rightarrow> string \<Rightarrow> world \<times> bool" where
  "stage_body e orch w b stage =
     (let mall = mall_name b; mall_brand = mall_brand_name_en b;
          status = get_stage_status orch w mall mall_brand stage
      in if status = ''DONE'' then (w, True)
         else if run_mode orch = ''PARTIAL'' \<and> stage \<in> set [''CONVERT'', ''IMAGE''] then
           (update_stage_status e orch w mall mall_brand stage ''DONE''
              (Some (text_of ''Skipped in PARTIAL mode'')), True)
         else execute_worker e orch w mall mall_brand stage
                (if stage \<in> set [''COLLECT'', ''CONVERT''] then mall_brand else buyma_brand b))"

text \<open>
  The loop \<open>for stage in self.stages\<close> of one pipeline running with every lock free
  when it asks for it; the interleaving of several pipelines is the system further down.
\<close>

fun pipeline_loop :: "env \<Rightarrow> orchestrator \<Rightarrow> brand_info \<Rightarrow> string list \<Rightarrow> world \<Rightarrow> world \<times> bool" where
  "pipeline_loop e orch b [] w = (w, True)"
| "pipeline_loop e orch b (s # ss) w =
     (case stage_body e orch w b s of
        (w', True) \<Rightarrow> pipeline_loop e orch b ss w'
      | (w', False) \<Rightarrow> (w', False))"

definition process_brand_pipeline :: "env \<Rightarrow> orchestrator \<Rightarrow> world \<Rightarrow> brand_info \<Rightarrow> world \<times> bool" where
  "process_brand_pipeline e orch w b = pipeline_loop e orch b (stages orch) w"

subsection \<open>The batch registry (table pipeline_batches)\<close>

text \<open>
  \<open>strftime("%Y%m%d_%H%M%S")\<close> for a date whose fields are in their calendar ranges
  (a year of at most four digits, the other fields of at most two).
\<close>

definition digit :: "nat \<Rightarrow> char" where
  "digit n = char_of (48 + n mod 10)"

definition pad2 :: "nat \<Rightarrow> string" where
  "pad2 n = [digit (n div 10), digit n]"

definition pad4 :: "nat \<Rightarrow> string" where
  "pad4 n = [digit (n div 1000), digit (n div 100), digit (n div 10), digit n]"

definition strftime :: "datetime \<Rightarrow> string" where
  "strftime d =
     pad4 (year d) @ pad2 (month d) @ pad2 (day d) @ ''_'' @ pad2 (hour d) @ pad2 (minute d)
       @ pad2 (second d)"

definition running_in_mode :: "string \<Rightarrow> batch_row \<Rightarrow> bool" where
  "running_in_mode rm r \<longleftrightarrow> b_status r = ''RUNNING'' \<and> b_run_mode r = rm"

text \<open>
  \<open>get_or_create_batch\<close> sets \<open>self.batch_id\<close> and returns it: the result is the
  world and the orchestrator with its batch id set. \<open>LIMIT 1\<close> takes the first matching
  row in the order the table is listed; the columns the INSERT does not name are left
  empty.
\<close>

definition get_or_create_batch :: "env \<Rightarrow> orchestrator \<Rightarrow> world \<Rightarrow> world \<times> orchestrator" where
  "get_or_create_batch e orch w =
     (case find (running_in_mode (run_mode orch)) (pipeline_batches w) of
        Some r \<Rightarrow> (w, orch\<lparr>batch_id := Some (b_batch_id r)\<rparr>)
      | None \<Rightarrow>
          (let bid = strftime (now e (ticks w)) in
           (w\<lparr>pipeline_batches := pipeline_batches w @
                 [\<lparr>b_batch_id = bid, b_run_mode = run_mode orch, b_status = ''RUNNING'',
                   b_total_brands = None, b_success_brands = None, b_end_time = None\<rparr>],
              ticks := ticks w + 1\<rparr>,
            orch\<lparr>batch_id := Some bid\<rparr>)))"

definition set_total_brands :: "orchestrator \<Rightarrow> world \<Rightarrow> nat \<Rightarrow> world" where
  "set_total_brands orch w n =
     w\<lparr>pipeline_batches :=
          map (\<lambda>r. if Some (b_batch_id r) = batch_id orch then r\<lparr>b_total_brands := Some n\<rparr> else r)
            (pipeline_batches w)\<rparr>"

text \<open>\<open>COUNT(DISTINCT brand_name)\<close> over the rows of the batch at the final stage with status DONE.\<close>

definition done_at_final :: "orchestrator \<Rightarrow> control_row \<Rightarrow> bool" where
  "done_at_final orch r \<longleftrightarrow>
     batch_id orch \<noteq> None \<and> c_batch_id r = batch_id orch \<and> c_stage r = final_stage orch
       \<and> c_status r = ''DONE''"

definition success_count :: "orchestrator \<Rightarrow> world \<Rightarrow> nat" where
  "success_count orch w =
     length (remdups (map c_brand_name (filter (done_at_final orch) (pipeline_control w))))"

definition finish_batch :: "env \<Rightarrow> orchestrator \<Rightarrow> world \<Rightarrow> world" where
  "finish_batch e orch w =
     w\<lparr>pipeline_batches :=
          map (\<lambda>r. if Some (b_batch_id r) = batch_id orch
                    then r\<lparr>b_status := ''COMPLETED'', b_end_time := Some (now e (ticks w)),
                           b_success_brands := Some (success_count orch w)\<rparr>
                    else r)
            (pipeline_batches w),
       ticks := ticks w + 1\<rparr>"

subsection \<open>The target brands (table mall_brands)\<close>

text \<open>
  The WHERE clause of \<open>get_target_brands\<close> over the rows of \<open>mall_brands\<close>; a filter
  that is \<open>None\<close> or empty adds no condition. SQL's \<open>=\<close> is string equality here and
  \<open>UPPER\<close> is \<open>upper\<close>.
\<close>

definition mall_ok :: "orchestrator \<Rightarrow> brand_info \<Rightarrow> bool" where
  "mall_ok orch b = (if truthy (mall_filter orch) then mall_name b = the (mall_filter orch) else True)"

definition brand_ok :: "orchestrator \<Rightarrow> brand_info \<Rightarrow> bool" where
  "brand_ok orch b =
     (if truthy (brand_filter orch)
      then upper (mall_brand_name_en b) = upper (the (brand_filter orch)) else True)"

definition not_excluded :: "orchestrator \<Rightarrow> brand_info \<Rightarrow> bool" where
  "not_excluded orch b =
     (if exclude_brands orch \<noteq> []
      then \<not> List.member (exclude_brands orch) (upper (mall_brand_name_en b)) else True)"

definition get_target_brands :: "orchestrator \<Rightarrow> brand_info list \<Rightarrow> brand_info list" where
  "get_target_brands orch catalog =
     filter (\<lambda>b. is_active b \<and> mall_ok orch b \<and> brand_ok orch b \<and> not_excluded orch b) catalog"

subsection \<open>The scheduler: pipelines interleaved under the stage semaphores\<close>

text \<open>
  The thread pool runs one \<open>process_brand_pipeline\<close> per brand. A pipeline is
  \<open>Queued\<close> until a pool worker takes it, then \<open>AtLoop\<close> with the stages still to do
  (about to enter the \<open>with\<close> block of the first of them), \<open>Inside\<close> a stage once it
  has acquired that stage's semaphore, and at last \<open>Finished\<close> with its return value.
  \<open>Crashed\<close> is a pipeline that raised.
\<close>

datatype pc = Queued | AtLoop "string list" | Inside string "string list" | Finished bool
  | Crashed error

record system =
  sys_world :: world
  sems :: "string \<rightharpoonup> nat"
  pcs :: "pc list"

fun active :: "pc \<Rightarrow> bool" where
  "active (AtLoop ss) = True"
| "active (Inside s ss) = True"
| "active p = False"

fun in_stage :: "string \<Rightarrow> pc \<Rightarrow> bool" where
  "in_stage s (Inside s' ss) = (s = s')"
| "in_stage s p = False"

fun waiting_for :: "string \<Rightarrow> pc \<Rightarrow> bool" where
  "waiting_for s (AtLoop (s' # ss)) = (s = s')"
| "waiting_for s p = False"

fun ended :: "pc \<Rightarrow> bool" where
  "ended (Finished ok) = True"
| "ended (Crashed err) = True"
| "ended p = False"

definition max_workers :: "orchestrator \<Rightarrow> brand_info list \<Rightarrow> nat" where
  "max_workers orch brands = min (length brands) (length (stages orch))"

definition set_pc :: "system \<Rightarrow> nat \<Rightarrow> pc \<Rightarrow> system" where
  "set_pc st t p = st\<lparr>pcs := (pcs st)[t := p]\<rparr>"

text \<open>
  One step of pipeline \<open>t\<close>, or \<open>None\<close> when it cannot move: not yet taken by a
  worker (the pool is full, or an earlier submission is still queued), blocked on a
  semaphore whose counter is 0, or ended. Acquiring decrements the counter of the stage;
  the body of the \<open>with\<close> block and the release that ends it are one step.
\<close>

definition thread_step ::
  "env \<Rightarrow> orchestrator \<Rightarrow> brand_info list \<Rightarrow> system \<Rightarrow> nat \<Rightarrow> system option" where
  "thread_step e orch brands st t =
     (if length (pcs st) \<le> t \<or> length brands \<le> t then None
      else case pcs st ! t of
        Queued \<Rightarrow>
          if length (filter active (pcs st)) < max_workers orch brands
               \<and> \<not> List.member (take t (pcs st)) Queued
          then Some (set_pc st t (AtLoop (stages orch))) else None
      | AtLoop [] \<Rightarrow> Some (set_pc st t (Finished True))
      | AtLoop (s # ss) \<Rightarrow>
          (case sems st s of
             None \<Rightarrow> Some (set_pc st t (Crashed KeyError))
           | Some 0 \<Rightarrow> None
           | Some (Suc n) \<Rightarrow> Some (set_pc (st\<lparr>sems := (sems st)(s \<mapsto> n)\<rparr>) t (Inside s ss)))
      | Inside s ss \<Rightarrow>
          (case stage_body e orch (sys_world st) (brands ! t) s of
             (w', ok) \<Rightarrow>
               Some (set_pc (st\<lparr>sys_world := w', sems := (sems st)(s := map_option Suc (sems st s))\<rparr>)
                       t (if ok then AtLoop ss else Finished False)))
      | Finished ok \<Rightarrow> None
      | Crashed err \<Rightarrow> None)"

text \<open>A schedule names the pipeline that moves next; naming one that cannot move changes nothing.\<close>

fun exec_schedule ::
  "env \<Rightarrow> orchestrator \<Rightarrow> brand_info list \<Rightarrow> nat list \<Rightarrow> system \<Rightarrow> system" where
  "exec_schedule e orch brands [] st = st"
| "exec_schedule e orch brands (t # ts) st =
     (case thread_step e orch brands st t of
        None \<Rightarrow> exec_schedule e orch brands ts st
      | Some st' \<Rightarrow> exec_schedule e orch brands ts st')"

definition init_system :: "orchestrator \<Rightarrow> brand_info list \<Rightarrow> world \<Rightarrow> system" where
  "init_system orch brands w =
     \<lparr>sys_world = w, sems = stage_locks orch, pcs = replicate (length brands) Queued\<rparr>"

text \<open>
  \<open>run\<close>: \<open>ThreadPoolExecutor\<close> raises ValueError when \<open>max_workers\<close> is not positive,
  which the \<open>except Exception\<close> of \<open>run\<close> catches: a fatal error, and \<open>finish_batch\<close>
  is not reached. Otherwise the pipelines run under the given schedule, and once all have
  ended the batch is finished; \<open>Unfinished\<close> is a schedule that stops before that.
\<close>

datatype run_result = Completed | Fatal error | Unfinished

definition run ::
  "env \<Rightarrow> orchestrator \<Rightarrow> world \<Rightarrow> brand_info list \<Rightarrow> nat list \<Rightarrow> world \<times> run_result" where
  "run e orch w catalog sched =
     (case get_or_create_batch e orch w of
        (w1, orch1) \<Rightarrow>
          (let brands = get_target_brands orch1 catalog;
               w2 = set_total_brands orch1 w1 (length brands)
           in if max_workers orch1 brands = 0 then (w2, Fatal ValueError)
              else (let st = exec_schedule e orch1 brands sched (init_system orch1 brands w2)
                    in if list_all ended (pcs st)
                       then (finish_batch e orch1 (sys_world st), Completed)
                       else (sys_world st, Unfinished))))"

subsection \<open>Observations used by the properties\<close>

text \<open>
  A launch made for a given brand and stage, the launches a step added, and the stored
  row of a brand and stage.
\<close>

definition tagged :: "string \<Rightarrow> string \<Rightarrow> string \<Rightarrow> launch \<Rightarrow> bool" where
  "tagged mall brand stage l \<longleftrightarrow> l_mall l = mall \<and> l_brand l = brand \<and> l_stage l = stage"


definition row_of :: "orchestrator \<Rightarrow> world \<Rightarrow> string \<Rightarrow> string \<Rightarrow> string \<Rightarrow> control_row option" where
  "row_of orch w mall brand stage = find (key_match (batch_id orch) mall brand stage) (pipeline_control w)"

subsection \<open>A concrete setting\<close>

text \<open>
  Two brands of one mall, a clock, and external scripts that all exit with status 0 except
  the image upload for the brand AMI PARIS, which exits with status 1.
\<close>

definition ex_now :: "nat \<Rightarrow> datetime" where
  "ex_now n = \<lparr>year = 2026, month = 1, day = 28, hour = 9, minute = 0, second = n mod 60\<rparr>"

fun ex_popen :: "string list \<Rightarrow> proc_result" where
  "ex_popen [exe, scr, flag, tgt] =
     (if scr = ''r2_image_uploader.py'' \<and> tgt = ''AMI PARIS'' then Exit 1 else Exit 0)"
| "ex_popen av = Raised (text_of ''bad argv'')"

definition ex_env :: env where
  "ex_env = \<lparr>executable = ''python'', popen = ex_popen, now = ex_now\<rparr>"

definition ex_ami :: brand_info where
  "ex_ami = \<lparr>mall_name = ''okmall'', mall_brand_name_en = ''AMI'',
             buyma_brand_name = Some ''AMI PARIS'', is_active = True\<rparr>"

definition ex_nike :: brand_info where
  "ex_nike = \<lparr>mall_name = ''okmall'', mall_brand_name_en = ''NIKE'',
              buyma_brand_name = None, is_active = True\<rparr>"

definition ex_orch :: "string \<Rightarrow> string list \<Rightarrow> orchestrator" where
  "ex_orch rm stgs =
     \<lparr>run_mode = rm, mall_filter = None, brand_filter = None, exclude_brands = [],
      batch_id = Some ''20260128_090000'', stages = stgs, final_stage = last stgs\<rparr>"

definition ex_world :: world where
  "ex_world = \<lparr>pipeline_control = [], pipeline_batches = [], ticks = 0, launched = []\<rparr>"

text \<open>A world in which the stage COLLECT of the brand AMI is already DONE.\<close>

definition ex_world_done :: world where
  "ex_world_done =
     \<lparr>pipeline_control =
        [\<lparr>c_batch_id = Some ''20260128_090000'', c_mall_name = ''okmall'', c_brand_name = ''AMI'',
          c_run_mode = ''FULL'', c_stage = ''COLLECT'', c_status = ''DONE'', c_error_msg = None,
          c_started_at = Some (ex_now 0), c_updated_at = Some (ex_now 1)\<rparr>],
      pipeline_batches = [], ticks = 2, launched = []\<rparr>"

text \<open>
  From \<open>w\<close> to \<open>w'\<close> the stage stays DONE and no launch made in between is for it.
\<close>

definition keeps_done ::
  "orchestrator \<Rightarrow> string \<Rightarrow> string \<Rightarrow> string \<Rightarrow> world \<Rightarrow> world \<Rightarrow> bool" where
  "keeps_done orch m br s w w' \<longleftrightarrow>
     get_stage_status orch w' m br s = ''DONE'' \<and>
     (\<exists>new. launched w' = launched w @ new \<and> list_all (\<lambda>l. \<not> tagged m br s l) new)"

text \<open>The launches of a list of commands, and the outcome \<open>Exit 0\<close> of a command.\<close>

definition launches_of :: "env \<Rightarrow> string \<Rightarrow> string \<Rightarrow> string \<Rightarrow> command list \<Rightarrow> launch list" where
  "launches_of e mall brand stage cs =
     map (\<lambda>c. \<lparr>l_mall = mall, l_brand = brand, l_stage = stage, l_argv = argv e c\<rparr>) cs"

definition succeeds :: "env \<Rightarrow> command \<Rightarrow> bool" where
  "succeeds e c \<longleftrightarrow> popen e (argv e c) = Exit 0"

text \<open>The diagnostic the command loop stores for a command that does not succeed.\<close>

definition diagnostic :: "env \<Rightarrow> command \<Rightarrow> msg" where
  "diagnostic e c =
     (case popen e (argv e c) of
        Exit rc \<Rightarrow> take 500 (fail_prefix @ text_of (script c))
      | Raised m \<Rightarrow> take 500 m)"

definition error_msg_of :: "orchestrator \<Rightarrow> world \<Rightarrow> string \<Rightarrow> string \<Rightarrow> string \<Rightarrow> msg option" where
  "error_msg_of orch w mall brand stage =
     (case row_of orch w mall brand stage of None \<Rightarrow> None | Some r \<Rightarrow> c_error_msg r)"

text \<open>
  The name a stage's commands are given for a brand, and a brand's stage all of whose
  commands succeed.
\<close>

definition target_name :: "brand_info \<Rightarrow> string \<Rightarrow> string" where
  "target_name b stage =
     (if stage = ''COLLECT'' \<or> stage = ''CONVERT'' then mall_brand_name_en b else buyma_brand b)"


definition status_of :: "orchestrator \<Rightarrow> world \<Rightarrow> brand_info \<Rightarrow> string \<Rightarrow> string" where
  "status_of orch w b stage = get_stage_status orch w (mall_name b) (mall_brand_name_en b) stage"

text \<open>The \<open>started_at\<close> of the stored row of a brand and stage, if there is a row.\<close>

definition started_of :: "orchestrator \<Rightarrow> world \<Rightarrow> string \<Rightarrow> string \<Rightarrow> string \<Rightarrow> datetime option option" where
  "started_of orch w mall brand stage = map_option c_started_at (row_of orch w mall brand stage)"

text \<open>A row that exists keeps its \<open>started_at\<close>: through every write, command loop, stage body,
  pipeline and schedule.\<close>

definition keeps_started ::
  "orchestrator \<Rightarrow> string \<Rightarrow> string \<Rightarrow> string \<Rightarrow> world \<Rightarrow> world \<Rightarrow> bool" where
  "keeps_started orch m br s w w' \<longleftrightarrow>
     row_of orch w' m br s \<noteq> None \<and> started_of orch w' m br s = started_of orch w m br s"

text \<open>The identifier, run mode and status of every batch row, in table order.\<close>

definition batch_keys :: "world \<Rightarrow> (string \<times> string \<times> string) list" where
  "batch_keys w = map (\<lambda>r. (b_batch_id r, b_run_mode r, b_status r)) (pipeline_batches w)"

text \<open>The world an interrupted run leaves: the batch opened or resumed, the brand count
  stored, and the pipelines stopped after some schedule.\<close>

definition interrupted_run ::
  "env \<Rightarrow> orchestrator \<Rightarrow> world \<Rightarrow> brand_info list \<Rightarrow> nat list \<Rightarrow> world" where
  "interrupted_run e orch w brands sched =
     (case get_or_create_batch e orch w of
        (w1, orch1) \<Rightarrow>
          sys_world (exec_schedule e orch1 brands sched
            (init_system orch1 brands (set_total_brands orch1 w1 (length brands)))))"

text \<open>A world with a completed batch and a batch still RUNNING in mode FULL.\<close>

definition ex_world_running :: world where
  "ex_world_running =
     \<lparr>pipeline_control = [],
      pipeline_batches =
        [\<lparr>b_batch_id = ''20260127_230000'', b_run_mode = ''FULL'', b_status = ''COMPLETED'',
          b_total_brands = Some 2, b_success_brands = Some 2, b_end_time = Some (ex_now 5)\<rparr>,
         \<lparr>b_batch_id = ''20260128_090000'', b_run_mode = ''FULL'', b_status = ''RUNNING'',
          b_total_brands = Some 2, b_success_brands = None, b_end_time = None\<rparr>],
      ticks = 7, launched = []\<rparr>"

text \<open>An orchestrator not yet started whose brand filter matches no brand of the catalogue.\<close>

definition ex_orch_gucci :: orchestrator where
  "ex_orch_gucci =
     \<lparr>run_mode = ''FULL'', mall_filter = None, brand_filter = Some ''gucci'', exclude_brands = [],
      batch_id = None, stages = ALL_STAGES, final_stage = ''REGISTER''\<rparr>"





section \<open>Properties\<close>

subsection \<open>The stage state store\<close>

lemma key_match_upd [simp]:
  "key_match k m b s (r\<lparr>c_status := st, c_error_msg := er, c_updated_at := u\<rparr>) = key_match k m b s r"
  by (simp add: key_match_def)

lemma find_map_same:
  "find (key_match bid mall brand stage)
     (map (\<lambda>r. if key_match bid mall brand stage r
                then r\<lparr>c_status := st, c_error_msg := er, c_updated_at := u\<rparr> else r) rows)
   = map_option (\<lambda>r. r\<lparr>c_status := st, c_error_msg := er, c_updated_at := u\<rparr>)
       (find (key_match bid mall brand stage) rows)"
  by (induction rows) auto

lemma find_map_other:
  "(bid', mall', brand', stage') \<noteq> (bid, mall, brand, stage) \<Longrightarrow>
   find (key_match bid' mall' brand' stage')
     (map (\<lambda>r. if key_match bid mall brand stage r
                then r\<lparr>c_status := st, c_error_msg := er, c_updated_at := u\<rparr> else r) rows)
   = find (key_match bid' mall' brand' stage') rows"
  by (induction rows) (auto simp: key_match_def)

lemma find_None_iff_key: "(find P xs = None) = (\<not> (\<exists>x\<in>set xs. P x))"
  by (induction xs) auto

lemma find_snoc: "find P (xs @ [y]) = (case find P xs of Some x \<Rightarrow> Some x | None \<Rightarrow> if P y then Some y else None)"
  by (induction xs) auto

lemma upsert_hit:
  "\<exists>r \<in> set rows. key_match bid mall brand stage r \<Longrightarrow>
   upsert rows bid mall brand rm stage status err t =
     map (\<lambda>r. if key_match bid mall brand stage r
               then r\<lparr>c_status := status, c_error_msg := err, c_updated_at := Some t\<rparr>
               else r) rows"
  by (simp add: upsert_def)

lemma upsert_miss:
  "\<not> (\<exists>r \<in> set rows. key_match bid mall brand stage r) \<Longrightarrow>
   upsert rows bid mall brand rm stage status err t =
     rows @ [\<lparr>c_batch_id = bid, c_mall_name = mall, c_brand_name = brand,
               c_run_mode = rm, c_stage = stage, c_status = status, c_error_msg = err,
               c_started_at = Some t, c_updated_at = None\<rparr>]"
  by (simp add: upsert_def)

lemma find_upsert_other:
  assumes "(bid', mall', brand', stage') \<noteq> (bid, mall, brand, stage)"
  shows "find (key_match bid' mall' brand' stage') (upsert rows bid mall brand rm stage status err t)
         = find (key_match bid' mall' brand' stage') rows"
proof (cases "\<exists>r \<in> set rows. key_match bid mall brand stage r")
  case True
  show ?thesis
    unfolding upsert_hit [OF True] by (rule find_map_other [OF assms])
next
  case False
  have "\<not> key_match bid' mall' brand' stage'
          \<lparr>c_batch_id = bid, c_mall_name = mall, c_brand_name = brand,
               c_run_mode = rm, c_stage = stage, c_status = status, c_error_msg = err,
               c_started_at = Some t, c_updated_at = None\<rparr>"
    using assms by (auto simp: key_match_def)
  then show ?thesis
    unfolding upsert_miss [OF False] by (simp add: find_snoc split: option.splits)
qed

lemma find_upsert_same:
  assumes "bid \<noteq> None"
  shows "map_option c_status
           (find (key_match bid mall brand stage) (upsert rows bid mall brand rm stage status err t))
         = Some status"
proof (cases "\<exists>r \<in> set rows. key_match bid mall brand stage r")
  case True
  then obtain r where "find (key_match bid mall brand stage) rows = Some r"
    by (cases "find (key_match bid mall brand stage) rows") (auto simp: find_None_iff_key)
  then show ?thesis
    unfolding upsert_hit [OF True] by (simp add: find_map_same)
next
  case False
  then have "find (key_match bid mall brand stage) rows = None"
    by (simp add: find_None_iff_key)
  moreover have "key_match bid mall brand stage
          \<lparr>c_batch_id = bid, c_mall_name = mall, c_brand_name = brand,
               c_run_mode = rm, c_stage = stage, c_status = status, c_error_msg = err,
               c_started_at = Some t, c_updated_at = None\<rparr>"
    using assms by (simp add: key_match_def)
  ultimately show ?thesis
    unfolding upsert_miss [OF False] by (simp add: find_snoc)
qed

lemma get_stage_status_row:
  "get_stage_status orch w mall brand stage =
     (case row_of orch w mall brand stage of None \<Rightarrow> ''PENDING'' | Some r \<Rightarrow> c_status r)"
  by (simp add: get_stage_status_def row_of_def)

lemma update_fields [simp]:
  "launched (update_stage_status e orch w mall brand stage st err) = launched w"
  "pipeline_batches (update_stage_status e orch w mall brand stage st err) = pipeline_batches w"
  "ticks (update_stage_status e orch w mall brand stage st err) = ticks w + 1"
  by (simp_all add: update_stage_status_def)

lemma row_update_other:
  "(mall', brand', stage') \<noteq> (mall, brand, stage) \<Longrightarrow>
   row_of orch (update_stage_status e orch w mall brand stage st err) mall' brand' stage'
     = row_of orch w mall' brand' stage'"
  by (simp add: row_of_def update_stage_status_def find_upsert_other)

lemma status_update_same:
  "batch_id orch \<noteq> None \<Longrightarrow>
   get_stage_status orch (update_stage_status e orch w mall brand stage st err) mall brand stage = st"
  using find_upsert_same [of "batch_id orch" mall brand stage "pipeline_control w" "run_mode orch" st err
      "now e (ticks w)"]
  by (auto simp: get_stage_status_def update_stage_status_def split: option.splits)

lemma log_launch_fields [simp]:
  "launched (log_launch w mall brand stage av) =
     launched w @ [\<lparr>l_mall = mall, l_brand = brand, l_stage = stage, l_argv = av\<rparr>]"
  "pipeline_batches (log_launch w mall brand stage av) = pipeline_batches w"
  "pipeline_control (log_launch w mall brand stage av) = pipeline_control w"
  "ticks (log_launch w mall brand stage av) = ticks w"
  by (simp_all add: log_launch_def)

lemma row_log_launch [simp]:
  "row_of orch (log_launch w mall brand stage av) m b s = row_of orch w m b s"
  by (simp add: row_of_def)

lemma status_log_launch [simp]:
  "get_stage_status orch (log_launch w mall brand stage av) m b s = get_stage_status orch w m b s"
  by (simp add: get_stage_status_row)

text \<open>What one run of the command loop does, whatever the commands.\<close>

lemma run_commands_frame:
  "run_commands e orch mall brand stage cs w = (w', ok) \<Longrightarrow>
     pipeline_batches w' = pipeline_batches w \<and>
     (\<exists>new. launched w' = launched w @ new \<and> (\<forall>l \<in> set new. tagged mall brand stage l)) \<and>
     (\<forall>m b s. (m, b, s) \<noteq> (mall, brand, stage) \<longrightarrow> row_of orch w' m b s = row_of orch w m b s)"
proof (induction cs arbitrary: w)
  case Nil
  then show ?case by (auto simp: row_update_other)
next
  case (Cons c cs)
  let ?w1 = "log_launch w mall brand stage (argv e c)"
  show ?case
  proof (cases "popen e (argv e c)")
    case (Exit rc)
    show ?thesis
    proof (cases "rc = 0")
      case True
      with Cons.prems Exit have "run_commands e orch mall brand stage cs ?w1 = (w', ok)"
        by simp
      from Cons.IH [OF this] show ?thesis
        by (auto simp: tagged_def)
    next
      case False
      with Cons.prems Exit show ?thesis
        by (auto simp: row_update_other tagged_def)
    qed
  next
    case (Raised m)
    with Cons.prems show ?thesis
      by (auto simp: row_update_other tagged_def)
  qed
qed

lemma run_commands_status:
  "batch_id orch \<noteq> None \<Longrightarrow> run_commands e orch mall brand stage cs w = (w', ok) \<Longrightarrow>
     get_stage_status orch w' mall brand stage = (if ok then ''DONE'' else ''ERROR'')"
proof (induction cs arbitrary: w)
  case Nil
  then show ?case by (auto simp: status_update_same)
next
  case (Cons c cs)
  then show ?case
    by (cases "popen e (argv e c)") (auto simp: status_update_same Let_def split: if_splits)
qed

lemma execute_worker_frame:
  assumes "execute_worker e orch w mall brand stage tgt = (w', ok)"
  shows "pipeline_batches w' = pipeline_batches w"
    and "\<exists>new. launched w' = launched w @ new \<and> (\<forall>l \<in> set new. tagged mall brand stage l)"
    and "(m, b, s) \<noteq> (mall, brand, stage) \<Longrightarrow> row_of orch w' m b s = row_of orch w m b s"
  using run_commands_frame [OF assms [unfolded execute_worker_def]]
  by (simp_all add: row_update_other)

lemma stage_body_frame:
  assumes "stage_body e orch w b stage = (w', ok)"
  shows "pipeline_batches w' = pipeline_batches w"
    and "\<exists>new. launched w' = launched w @ new
            \<and> (\<forall>l \<in> set new. tagged (mall_name b) (mall_brand_name_en b) stage l)"
    and "(m, br, s) \<noteq> (mall_name b, mall_brand_name_en b, stage)
           \<Longrightarrow> row_of orch w' m br s = row_of orch w m br s"
proof -
  consider (already) "w' = w"
    | (skip) "w' = update_stage_status e orch w (mall_name b) (mall_brand_name_en b) stage ''DONE''
                 (Some (text_of ''Skipped in PARTIAL mode''))"
    | (work) tgt where "execute_worker e orch w (mall_name b) (mall_brand_name_en b) stage tgt = (w', ok)"
    using assms unfolding stage_body_def Let_def
    by (auto split: if_splits)
  then have "pipeline_batches w' = pipeline_batches w \<and>
     (\<exists>new. launched w' = launched w @ new
            \<and> (\<forall>l \<in> set new. tagged (mall_name b) (mall_brand_name_en b) stage l)) \<and>
     ((m, br, s) \<noteq> (mall_name b, mall_brand_name_en b, stage)
           \<longrightarrow> row_of orch w' m br s = row_of orch w m br s)"
  proof cases
    case already
    then show ?thesis by simp
  next
    case skip
    then show ?thesis by (simp add: row_update_other)
  next
    case work
    from execute_worker_frame [OF work] show ?thesis by blast
  qed
  then show "pipeline_batches w' = pipeline_batches w"
    and "\<exists>new. launched w' = launched w @ new
            \<and> (\<forall>l \<in> set new. tagged (mall_name b) (mall_brand_name_en b) stage l)"
    and "(m, br, s) \<noteq> (mall_name b, mall_brand_name_en b, stage)
           \<Longrightarrow> row_of orch w' m br s = row_of orch w m br s"
    by blast+
qed

subsection \<open>The worker invocation layer\<close>



subsection \<open>The PARTIAL skip policy\<close>



subsection \<open>Resumption\<close>

lemma keeps_done_refl:
  "get_stage_status orch w m br s = ''DONE'' \<Longrightarrow> keeps_done orch m br s w w"
  by (simp add: keeps_done_def)

lemma keeps_done_trans:
  "keeps_done orch m br s w w1 \<Longrightarrow> keeps_done orch m br s w1 w2 \<Longrightarrow> keeps_done orch m br s w w2"
  by (auto simp: keeps_done_def)

lemma stage_body_done:
  "get_stage_status orch w (mall_name b) (mall_brand_name_en b) s = ''DONE'' \<Longrightarrow>
     stage_body e orch w b s = (w, True)"
  by (simp add: stage_body_def)

lemma stage_body_keeps_done:
  assumes d: "get_stage_status orch w m br s = ''DONE''"
  shows "keeps_done orch m br s w (fst (stage_body e orch w b' s'))"
proof (cases "(m, br, s) = (mall_name b', mall_brand_name_en b', s')")
  case True
  with d have "stage_body e orch w b' s' = (w, True)"
    by (simp add: stage_body_done)
  with d show ?thesis by (simp add: keeps_done_refl)
next
  case False
  obtain w' ok where sb: "stage_body e orch w b' s' = (w', ok)"
    by (cases "stage_body e orch w b' s'")
  from stage_body_frame(3) [OF sb False] d
  have st: "get_stage_status orch w' m br s = ''DONE''"
    by (simp add: get_stage_status_row)
  from stage_body_frame(2) [OF sb] obtain new where
    n: "launched w' = launched w @ new"
       "\<forall>l \<in> set new. tagged (mall_name b') (mall_brand_name_en b') s' l"
    by blast
  from n(2) False have "list_all (\<lambda>l. \<not> tagged m br s l) new"
    by (auto simp: list_all_iff tagged_def)
  with st n(1) sb show ?thesis
    by (auto simp: keeps_done_def)
qed

lemma pipeline_loop_keeps_done:
  "get_stage_status orch w m br s = ''DONE'' \<Longrightarrow>
     keeps_done orch m br s w (fst (pipeline_loop e orch b' ss w))"
proof (induction ss arbitrary: w)
  case Nil
  then show ?case by (simp add: keeps_done_refl)
next
  case (Cons s' ss)
  obtain w' ok where sb: "stage_body e orch w b' s' = (w', ok)"
    by (cases "stage_body e orch w b' s'")
  from stage_body_keeps_done [OF Cons.prems, of e b' s'] sb
  have k1: "keeps_done orch m br s w w'" by simp
  then have d': "get_stage_status orch w' m br s = ''DONE''"
    by (simp add: keeps_done_def)
  show ?case
  proof (cases ok)
    case True
    from Cons.IH [OF d'] k1 sb True show ?thesis
      by (auto intro: keeps_done_trans)
  next
    case False
    with k1 sb show ?thesis by simp
  qed
qed

lemma thread_step_world:
  assumes "thread_step e orch brands st t = Some st'"
  shows "sys_world st' = sys_world st
         \<or> (\<exists>s. sys_world st' = fst (stage_body e orch (sys_world st) (brands ! t) s))"
proof (cases "pcs st ! t")
  case Queued
  with assms show ?thesis
    by (auto simp: thread_step_def set_pc_def split: if_splits)
next
  case (AtLoop ss)
  with assms show ?thesis
    by (cases ss) (auto simp: thread_step_def set_pc_def split: if_splits option.splits nat.splits)
next
  case (Inside s ss)
  with assms have "sys_world st' = fst (stage_body e orch (sys_world st) (brands ! t) s)"
    by (auto simp: thread_step_def set_pc_def split: if_splits prod.splits)
  then show ?thesis by blast
next
  case (Finished ok)
  with assms show ?thesis by (auto simp: thread_step_def split: if_splits)
next
  case (Crashed err)
  with assms show ?thesis by (auto simp: thread_step_def split: if_splits)
qed

lemma exec_schedule_keeps_done:
  "get_stage_status orch (sys_world st) m br s = ''DONE'' \<Longrightarrow>
     keeps_done orch m br s (sys_world st) (sys_world (exec_schedule e orch brands sched st))"
proof (induction sched arbitrary: st)
  case Nil
  then show ?case by (simp add: keeps_done_refl)
next
  case (Cons t ts)
  show ?case
  proof (cases "thread_step e orch brands st t")
    case None
    with Cons show ?thesis by simp
  next
    case (Some st')
    from thread_step_world [OF Some] stage_body_keeps_done [OF Cons.prems] Cons.prems
    have k1: "keeps_done orch m br s (sys_world st) (sys_world st')"
      by (auto simp: keeps_done_refl)
    then have "get_stage_status orch (sys_world st') m br s = ''DONE''"
      by (simp add: keeps_done_def)
    from Cons.IH [OF this] k1 Some show ?thesis
      by (auto intro: keeps_done_trans)
  qed
qed

text \<open>
  Claim C2. If the stored status of a brand's stage is DONE when its pipeline reaches the
  stage, the body of the stage returns the world unchanged (nothing written, nothing
  launched) and the loop goes on. Hence a stage that is DONE when a batch is run again stays
  DONE and no command is launched for it: by the brand's own pipeline, and by the pipelines of
  any list of brands under any schedule.
\<close>

theorem done_stage_is_skipped:
  assumes "get_stage_status orch w (mall_name b) (mall_brand_name_en b) s = ''DONE''"
  shows "stage_body e orch w b s = (w, True)
       \<and> pipeline_loop e orch b (s # ss) w = pipeline_loop e orch b ss w
       \<and> keeps_done orch (mall_name b) (mall_brand_name_en b) s w
           (fst (process_brand_pipeline e orch w b))
       \<and> (sys_world st = w \<longrightarrow>
            keeps_done orch (mall_name b) (mall_brand_name_en b) s w
              (sys_world (exec_schedule e orch brands sched st)))"
  using assms stage_body_done [OF assms, of e] pipeline_loop_keeps_done [OF assms, of e b "stages orch"]
    exec_schedule_keeps_done [of orch st "mall_name b" "mall_brand_name_en b" s e brands sched]
  by (auto simp: process_brand_pipeline_def)

theorem done_stage_is_skipped_witness:
  "get_stage_status (ex_orch ''FULL'' ALL_STAGES) ex_world_done (mall_name ex_ami)
       (mall_brand_name_en ex_ami) ''COLLECT'' = ''DONE''
   \<and> stage_body ex_env (ex_orch ''FULL'' ALL_STAGES) ex_world_done ex_ami ''COLLECT''
       = (ex_world_done, True)
   \<and> keeps_done (ex_orch ''FULL'' ALL_STAGES) (mall_name ex_ami) (mall_brand_name_en ex_ami)
       ''COLLECT'' ex_world_done
       (fst (process_brand_pipeline ex_env (ex_orch ''FULL'' ALL_STAGES) ex_world_done ex_ami))
   \<and> keeps_done (ex_orch ''FULL'' ALL_STAGES) (mall_name ex_ami) (mall_brand_name_en ex_ami)
       ''COLLECT'' ex_world_done
       (sys_world (exec_schedule ex_env (ex_orch ''FULL'' ALL_STAGES) [ex_ami, ex_nike]
          [0, 1, 0, 0, 1, 1]
          (init_system (ex_orch ''FULL'' ALL_STAGES) [ex_ami, ex_nike] ex_world_done)))"
proof -
  have h: "get_stage_status (ex_orch ''FULL'' ALL_STAGES) ex_world_done (mall_name ex_ami)
       (mall_brand_name_en ex_ami) ''COLLECT'' = ''DONE''"
    by (simp add: get_stage_status_def ex_orch_def ex_world_done_def ex_ami_def key_match_def)
  have i: "sys_world (init_system (ex_orch ''FULL'' ALL_STAGES) [ex_ami, ex_nike] ex_world_done)
             = ex_world_done"
    by (simp add: init_system_def)
  from done_stage_is_skipped [OF h, of ex_env "[]"
      "init_system (ex_orch ''FULL'' ALL_STAGES) [ex_ami, ex_nike] ex_world_done"
      "[ex_ami, ex_nike]" "[0, 1, 0, 0, 1, 1]"] h i
  show ?thesis by blast
qed

subsection \<open>Stages of several commands\<close>

lemma find_upsert_same_row:
  assumes "bid \<noteq> None"
  shows "\<exists>r. find (key_match bid mall brand stage) (upsert rows bid mall brand rm stage status err t)
               = Some r \<and> c_status r = status \<and> c_error_msg r = err"
proof (cases "\<exists>r \<in> set rows. key_match bid mall brand stage r")
  case True
  then obtain r where "find (key_match bid mall brand stage) rows = Some r"
    by (cases "find (key_match bid mall brand stage) rows") (auto simp: find_None_iff_key)
  then show ?thesis
    unfolding upsert_hit [OF True] by (simp add: find_map_same)
next
  case False
  then have "find (key_match bid mall brand stage) rows = None"
    by (simp add: find_None_iff_key)
  moreover have "key_match bid mall brand stage
          \<lparr>c_batch_id = bid, c_mall_name = mall, c_brand_name = brand,
               c_run_mode = rm, c_stage = stage, c_status = status, c_error_msg = err,
               c_started_at = Some t, c_updated_at = None\<rparr>"
    using assms by (simp add: key_match_def)
  ultimately show ?thesis
    unfolding upsert_miss [OF False] by (simp add: find_snoc)
qed

lemma error_msg_update_same:
  "batch_id orch \<noteq> None \<Longrightarrow>
   error_msg_of orch (update_stage_status e orch w mall brand stage st err) mall brand stage = err"
  using find_upsert_same_row [of "batch_id orch" mall brand stage "pipeline_control w" "run_mode orch"
      st err "now e (ticks w)"]
  by (auto simp: error_msg_of_def row_of_def update_stage_status_def)

lemma launches_of_simps [simp]:
  "launches_of e mall brand stage [] = []"
  "launches_of e mall brand stage (c # cs) =
     \<lparr>l_mall = mall, l_brand = brand, l_stage = stage, l_argv = argv e c\<rparr>
       # launches_of e mall brand stage cs"
  "launches_of e mall brand stage (cs @ ds) =
     launches_of e mall brand stage cs @ launches_of e mall brand stage ds"
  by (simp_all add: launches_of_def)

lemma run_commands_all_succeed:
  "list_all (succeeds e) cs \<Longrightarrow>
     run_commands e orch mall brand stage cs w =
       (update_stage_status e orch
          (w\<lparr>launched := launched w @ launches_of e mall brand stage cs\<rparr>)
          mall brand stage ''DONE'' None, True)"
proof (induction cs arbitrary: w)
  case Nil
  then show ?case by simp
next
  case (Cons c cs)
  then have a: "succeeds e c" "list_all (succeeds e) cs"
    by simp_all
  from a(1) have "popen e (argv e c) = Exit 0"
    by (simp add: succeeds_def)
  with Cons.IH [OF a(2), of "log_launch w mall brand stage (argv e c)"] show ?case
    by (simp add: log_launch_def Let_def)
qed

lemma run_commands_failure_head:
  "\<not> succeeds e c \<Longrightarrow>
     run_commands e orch mall brand stage (c # post) w =
       (update_stage_status e orch
          (w\<lparr>launched := launched w @ launches_of e mall brand stage [c]\<rparr>)
          mall brand stage ''ERROR'' (Some (diagnostic e c)), False)"
proof (cases "popen e (argv e c)")
  case (Exit rc)
  assume "\<not> succeeds e c"
  with Exit have "rc \<noteq> 0" by (simp add: succeeds_def)
  with Exit show ?thesis
    by (simp add: diagnostic_def log_launch_def Let_def)
next
  case (Raised m)
  then show ?thesis
    by (simp add: diagnostic_def log_launch_def Let_def)
qed

lemma run_commands_first_failure:
  "list_all (succeeds e) pre \<Longrightarrow> \<not> succeeds e c \<Longrightarrow>
     run_commands e orch mall brand stage (pre @ c # post) w =
       (update_stage_status e orch
          (w\<lparr>launched := launched w @ launches_of e mall brand stage (pre @ [c])\<rparr>)
          mall brand stage ''ERROR'' (Some (diagnostic e c)), False)"
proof (induction pre arbitrary: w)
  case Nil
  from Nil(2) show ?case
    unfolding append_Nil by (rule run_commands_failure_head)
next
  case (Cons p pre)
  then have a: "succeeds e p" "list_all (succeeds e) pre"
    by simp_all
  from a(1) have "popen e (argv e p) = Exit 0"
    by (simp add: succeeds_def)
  with Cons.IH [OF a(2) Cons.prems(2), of "log_launch w mall brand stage (argv e p)"] show ?case
    by (simp add: log_launch_def Let_def)
qed


lemma run_commands_success_outcome:
  assumes b: "batch_id orch \<noteq> None" and ok: "list_all (succeeds e) cs"
  shows "snd (run_commands e orch mall brand stage cs w)"
    and "launched (fst (run_commands e orch mall brand stage cs w))
           = launched w @ launches_of e mall brand stage cs"
    and "get_stage_status orch (fst (run_commands e orch mall brand stage cs w)) mall brand stage
           = ''DONE''"
  using b by (simp_all add: run_commands_all_succeed [OF ok] status_update_same)

lemma run_commands_failure_outcome:
  assumes b: "batch_id orch \<noteq> None" and ok: "list_all (succeeds e) pre" and ko: "\<not> succeeds e c"
  shows "\<not> snd (run_commands e orch mall brand stage (pre @ c # post) w)"
    and "launched (fst (run_commands e orch mall brand stage (pre @ c # post) w))
           = launched w @ launches_of e mall brand stage (pre @ [c])"
    and "get_stage_status orch (fst (run_commands e orch mall brand stage (pre @ c # post) w))
           mall brand stage = ''ERROR''"
    and "error_msg_of orch (fst (run_commands e orch mall brand stage (pre @ c # post) w))
           mall brand stage = Some (diagnostic e c)"
  using b
  by (simp_all add: run_commands_first_failure [OF ok ko] status_update_same error_msg_update_same)

text \<open>
  Claim C7. The stage IMAGE has two commands, the image collector and then the image
  uploader. For any list of commands the loop launches them in order: when every command
  exits with status 0 all are launched and the stage is recorded DONE; at the first command
  that exits non-zero or raises, the stage is recorded ERROR with the diagnostic of that
  command, the result is False and no later command is launched. For IMAGE: the result is
  True exactly when both commands succeed, and the uploader is launched exactly when the
  collector succeeded.
\<close>

theorem multi_unit_stage:
  assumes "batch_id orch \<noteq> None"
  shows "commands_for ''IMAGE'' tgt =
           [\<lparr>script = ''image_collector_parallel.py'', target = tgt\<rparr>,
            \<lparr>script = ''r2_image_uploader.py'', target = tgt\<rparr>]
       \<and> (list_all (succeeds e) cs \<longrightarrow>
            snd (run_commands e orch mall brand stage cs w)
            \<and> launched (fst (run_commands e orch mall brand stage cs w))
                = launched w @ launches_of e mall brand stage cs
            \<and> get_stage_status orch (fst (run_commands e orch mall brand stage cs w))
                mall brand stage = ''DONE'')
       \<and> (list_all (succeeds e) pre \<and> \<not> succeeds e c \<longrightarrow>
            \<not> snd (run_commands e orch mall brand stage (pre @ c # post) w)
            \<and> launched (fst (run_commands e orch mall brand stage (pre @ c # post) w))
                = launched w @ launches_of e mall brand stage (pre @ [c])
            \<and> get_stage_status orch (fst (run_commands e orch mall brand stage (pre @ c # post) w))
                mall brand stage = ''ERROR''
            \<and> error_msg_of orch (fst (run_commands e orch mall brand stage (pre @ c # post) w))
                mall brand stage = Some (diagnostic e c))
       \<and> snd (execute_worker e orch w mall brand ''IMAGE'' tgt)
           = (succeeds e \<lparr>script = ''image_collector_parallel.py'', target = tgt\<rparr>
              \<and> succeeds e \<lparr>script = ''r2_image_uploader.py'', target = tgt\<rparr>)
       \<and> launched (fst (execute_worker e orch w mall brand ''IMAGE'' tgt))
           = launched w @ launches_of e mall brand ''IMAGE''
               (if succeeds e \<lparr>script = ''image_collector_parallel.py'', target = tgt\<rparr>
                then [\<lparr>script = ''image_collector_parallel.py'', target = tgt\<rparr>,
                      \<lparr>script = ''r2_image_uploader.py'', target = tgt\<rparr>]
                else [\<lparr>script = ''image_collector_parallel.py'', target = tgt\<rparr>])
       \<and> get_stage_status orch (fst (execute_worker e orch w mall brand ''IMAGE'' tgt))
             mall brand ''IMAGE''
           = (if snd (execute_worker e orch w mall brand ''IMAGE'' tgt) then ''DONE'' else ''ERROR'')"
proof -
  let ?f = "\<lparr>script = ''image_collector_parallel.py'', target = tgt\<rparr>"
  let ?u = "\<lparr>script = ''r2_image_uploader.py'', target = tgt\<rparr>"
  let ?w = "update_stage_status e orch w mall brand ''IMAGE'' ''RUNNING'' None"
  have cf: "commands_for ''IMAGE'' tgt = [?f, ?u]"
    by (simp add: commands_for_def)
  have ew: "execute_worker e orch w mall brand ''IMAGE'' tgt
              = run_commands e orch mall brand ''IMAGE'' [?f, ?u] ?w"
    by (simp add: execute_worker_def cf)
  have st: "get_stage_status orch (fst (execute_worker e orch w mall brand ''IMAGE'' tgt))
             mall brand ''IMAGE''
           = (if snd (execute_worker e orch w mall brand ''IMAGE'' tgt) then ''DONE'' else ''ERROR'')"
    using run_commands_status [OF assms, of e mall brand "''IMAGE''" "[?f, ?u]" ?w] ew
    by (cases "run_commands e orch mall brand ''IMAGE'' [?f, ?u] ?w") simp
  have img: "snd (execute_worker e orch w mall brand ''IMAGE'' tgt) = (succeeds e ?f \<and> succeeds e ?u)
       \<and> launched (fst (execute_worker e orch w mall brand ''IMAGE'' tgt))
           = launched w @ launches_of e mall brand ''IMAGE'' (if succeeds e ?f then [?f, ?u] else [?f])"
  proof (cases "succeeds e ?f")
    case False
    from run_commands_failure_outcome(1,2) [OF assms _ False, of "[]" mall brand "''IMAGE''" "[?u]" ?w]
    show ?thesis using False by (simp add: ew)
  next
    case True
    show ?thesis
    proof (cases "succeeds e ?u")
      case False
      from run_commands_failure_outcome(1,2) [OF assms _ False, of "[?f]" mall brand "''IMAGE''" "[]" ?w]
      show ?thesis using True False by (simp add: ew)
    next
      case u: True
      from run_commands_success_outcome(1,2) [OF assms, of e "[?f, ?u]" mall brand "''IMAGE''" ?w]
      show ?thesis using True u by (simp add: ew)
    qed
  qed
  show ?thesis
    using cf st img run_commands_success_outcome [OF assms, of e cs mall brand stage w]
      run_commands_failure_outcome [OF assms, of e pre c mall brand stage post w]
    by blast
qed

theorem multi_unit_stage_witness:
  "batch_id (ex_orch ''FULL'' ALL_STAGES) \<noteq> None
   \<and> list_all (succeeds ex_env) (commands_for ''IMAGE'' ''NIKE'')
   \<and> snd (run_commands ex_env (ex_orch ''FULL'' ALL_STAGES) ''okmall'' ''NIKE'' ''IMAGE''
            (commands_for ''IMAGE'' ''NIKE'') ex_world)
   \<and> list_all (succeeds ex_env) [\<lparr>script = ''image_collector_parallel.py'', target = ''AMI PARIS''\<rparr>]
   \<and> \<not> succeeds ex_env \<lparr>script = ''r2_image_uploader.py'', target = ''AMI PARIS''\<rparr>
   \<and> \<not> snd (execute_worker ex_env (ex_orch ''FULL'' ALL_STAGES) ex_world ''okmall'' ''AMI''
              ''IMAGE'' ''AMI PARIS'')
   \<and> get_stage_status (ex_orch ''FULL'' ALL_STAGES)
        (fst (execute_worker ex_env (ex_orch ''FULL'' ALL_STAGES) ex_world ''okmall'' ''AMI''
              ''IMAGE'' ''AMI PARIS'')) ''okmall'' ''AMI'' ''IMAGE'' = ''ERROR''
   \<and> error_msg_of (ex_orch ''FULL'' ALL_STAGES)
        (fst (run_commands ex_env (ex_orch ''FULL'' ALL_STAGES) ''okmall'' ''AMI'' ''IMAGE''
               ([\<lparr>script = ''image_collector_parallel.py'', target = ''AMI PARIS''\<rparr>]
                 @ \<lparr>script = ''r2_image_uploader.py'', target = ''AMI PARIS''\<rparr> # []) ex_world))
        ''okmall'' ''AMI'' ''IMAGE''
       = Some (diagnostic ex_env \<lparr>script = ''r2_image_uploader.py'', target = ''AMI PARIS''\<rparr>)"
proof -
  let ?o = "ex_orch ''FULL'' ALL_STAGES"
  let ?f = "\<lparr>script = ''image_collector_parallel.py'', target = ''AMI PARIS''\<rparr>"
  let ?u = "\<lparr>script = ''r2_image_uploader.py'', target = ''AMI PARIS''\<rparr>"
  have b: "batch_id ?o \<noteq> None"
    by (simp add: ex_orch_def)
  have n: "list_all (succeeds ex_env) (commands_for ''IMAGE'' ''NIKE'')"
    by (simp add: succeeds_def ex_env_def argv_def commands_for_def)
  have f: "list_all (succeeds ex_env) [?f]"
    by (simp add: succeeds_def ex_env_def argv_def)
  have f': "succeeds ex_env ?f"
    by (simp add: succeeds_def ex_env_def argv_def)
  have u: "\<not> succeeds ex_env ?u"
    by (simp add: succeeds_def ex_env_def argv_def)
  note t = multi_unit_stage [OF b, of "''AMI PARIS''" ex_env "commands_for ''IMAGE'' ''NIKE''"
      "''okmall''" "''NIKE''" "''IMAGE''" ex_world "[?f]" ?u "[]"]
  note t' = multi_unit_stage [OF b, of "''AMI PARIS''" ex_env "[]"
      "''okmall''" "''AMI''" "''IMAGE''" ex_world "[?f]" ?u "[]"]
  from t n have 1: "snd (run_commands ex_env ?o ''okmall'' ''NIKE'' ''IMAGE''
            (commands_for ''IMAGE'' ''NIKE'') ex_world)"
    by blast
  from t' u f' have 2: "\<not> snd (execute_worker ex_env ?o ex_world ''okmall'' ''AMI''
              ''IMAGE'' ''AMI PARIS'')"
    by blast
  from t' 2 have 3: "get_stage_status ?o
        (fst (execute_worker ex_env ?o ex_world ''okmall'' ''AMI''
              ''IMAGE'' ''AMI PARIS'')) ''okmall'' ''AMI'' ''IMAGE'' = ''ERROR''"
    by simp
  from t' f u have 4: "error_msg_of ?o
        (fst (run_commands ex_env ?o ''okmall'' ''AMI'' ''IMAGE'' ([?f] @ ?u # []) ex_world))
        ''okmall'' ''AMI'' ''IMAGE'' = Some (diagnostic ex_env ?u)"
    by blast
  from b n 1 f u 2 3 4 show ?thesis by blast
qed

subsection \<open>Failure of a stage\<close>

lemma stage_body_unfold:
  "stage_body e orch w b s =
     (if status_of orch w b s = ''DONE'' then (w, True)
      else if run_mode orch = ''PARTIAL'' \<and> (s = ''CONVERT'' \<or> s = ''IMAGE'') then
        (update_stage_status e orch w (mall_name b) (mall_brand_name_en b) s ''DONE''
           (Some (text_of ''Skipped in PARTIAL mode'')), True)
      else execute_worker e orch w (mall_name b) (mall_brand_name_en b) s (target_name b s))"
  by (auto simp: stage_body_def Let_def status_of_def target_name_def)

lemma stage_body_cases:
  obtains (already) "status_of orch w b s = ''DONE''" "stage_body e orch w b s = (w, True)"
  | (skipped) "status_of orch w b s \<noteq> ''DONE''"
      "stage_body e orch w b s =
         (update_stage_status e orch w (mall_name b) (mall_brand_name_en b) s ''DONE''
            (Some (text_of ''Skipped in PARTIAL mode'')), True)"
  | (worked) "status_of orch w b s \<noteq> ''DONE''"
      "stage_body e orch w b s =
         run_commands e orch (mall_name b) (mall_brand_name_en b) s
           (commands_for s (target_name b s))
           (update_stage_status e orch w (mall_name b) (mall_brand_name_en b) s ''RUNNING'' None)"
proof (cases "status_of orch w b s = ''DONE''")
  case True
  then have "stage_body e orch w b s = (w, True)"
    by (simp add: stage_body_unfold)
  with True show ?thesis by (rule already)
next
  case False
  show ?thesis
  proof (cases "run_mode orch = ''PARTIAL'' \<and> (s = ''CONVERT'' \<or> s = ''IMAGE'')")
    case True
    with False have "stage_body e orch w b s =
         (update_stage_status e orch w (mall_name b) (mall_brand_name_en b) s ''DONE''
            (Some (text_of ''Skipped in PARTIAL mode'')), True)"
      by (simp add: stage_body_unfold)
    with False show ?thesis by (rule skipped)
  next
    case np: False
    with False have "stage_body e orch w b s =
         run_commands e orch (mall_name b) (mall_brand_name_en b) s
           (commands_for s (target_name b s))
           (update_stage_status e orch w (mall_name b) (mall_brand_name_en b) s ''RUNNING'' None)"
      by (auto simp: stage_body_unfold execute_worker_def)
    with False show ?thesis by (rule worked)
  qed
qed




subsection \<open>The pipeline of one brand\<close>




lemma pipeline_loop_step:
  obtains w1 where "stage_body e orch w b x = (w1, True)"
      "pipeline_loop e orch b (x # xs) w = pipeline_loop e orch b xs w1"
  | w1 where "stage_body e orch w b x = (w1, False)"
      "pipeline_loop e orch b (x # xs) w = (w1, False)"
proof (cases "stage_body e orch w b x")
  case (Pair w1 ok)
  show ?thesis
  proof (cases ok)
    case True
    with Pair have "stage_body e orch w b x = (w1, True)"
      "pipeline_loop e orch b (x # xs) w = pipeline_loop e orch b xs w1"
      by simp_all
    then show ?thesis by (rule that(1))
  next
    case False
    with Pair have "stage_body e orch w b x = (w1, False)"
      "pipeline_loop e orch b (x # xs) w = (w1, False)"
      by simp_all
    then show ?thesis by (rule that(2))
  qed
qed








subsection \<open>What a write changes\<close>

lemma row_update_existing:
  assumes "row_of orch w mall brand stage = Some r"
  shows "row_of orch (update_stage_status e orch w mall brand stage st err) mall brand stage
           = Some (r\<lparr>c_status := st, c_error_msg := err, c_updated_at := Some (now e (ticks w))\<rparr>)"
proof -
  from assms have f: "find (key_match (batch_id orch) mall brand stage) (pipeline_control w) = Some r"
    by (simp add: row_of_def)
  then have "\<exists>r \<in> set (pipeline_control w). key_match (batch_id orch) mall brand stage r"
    using find_None_iff_key [of "key_match (batch_id orch) mall brand stage" "pipeline_control w"]
    by simp
  from upsert_hit [OF this] f show ?thesis
    by (simp add: row_of_def update_stage_status_def find_map_same)
qed

lemma row_update_new:
  assumes "row_of orch w mall brand stage = None" and "batch_id orch \<noteq> None"
  shows "row_of orch (update_stage_status e orch w mall brand stage st err) mall brand stage
           = Some \<lparr>c_batch_id = batch_id orch, c_mall_name = mall, c_brand_name = brand,
                   c_run_mode = run_mode orch, c_stage = stage, c_status = st, c_error_msg = err,
                   c_started_at = Some (now e (ticks w)), c_updated_at = None\<rparr>"
proof -
  from assms(1) have f: "find (key_match (batch_id orch) mall brand stage) (pipeline_control w) = None"
    by (simp add: row_of_def)
  then have "\<not> (\<exists>r \<in> set (pipeline_control w). key_match (batch_id orch) mall brand stage r)"
    by (simp add: find_None_iff_key)
  from upsert_miss [OF this] f assms(2) show ?thesis
    by (simp add: row_of_def update_stage_status_def find_snoc key_match_def)
qed

lemma started_update:
  assumes "row_of orch w m br s \<noteq> None"
  shows "started_of orch (update_stage_status e orch w mall brand stage st err) m br s
           = started_of orch w m br s"
proof (cases "(m, br, s) = (mall, brand, stage)")
  case True
  from assms obtain r where r: "row_of orch w m br s = Some r" by blast
  with True row_update_existing [of orch w mall brand stage r e st err] show ?thesis
    by (simp add: started_of_def)
next
  case False
  then show ?thesis by (simp add: started_of_def row_update_other)
qed

lemma row_update_exists:
  "row_of orch w m br s \<noteq> None \<Longrightarrow>
     row_of orch (update_stage_status e orch w mall brand stage st err) m br s \<noteq> None"
proof (cases "(m, br, s) = (mall, brand, stage)")
  case True
  assume "row_of orch w m br s \<noteq> None"
  then obtain r where r: "row_of orch w m br s = Some r" by blast
  with True row_update_existing [of orch w mall brand stage r e st err] show ?thesis
    by simp
next
  case False
  assume "row_of orch w m br s \<noteq> None"
  with False show ?thesis by (simp add: row_update_other)
qed

lemma keeps_started_update:
  "row_of orch w m br s \<noteq> None \<Longrightarrow>
     keeps_started orch m br s w (update_stage_status e orch w mall brand stage st err)"
  by (simp add: keeps_started_def started_update row_update_exists)

lemma keeps_started_trans:
  "keeps_started orch m br s w w1 \<Longrightarrow> keeps_started orch m br s w1 w2
     \<Longrightarrow> keeps_started orch m br s w w2"
  by (simp add: keeps_started_def)

lemma keeps_started_log [simp]:
  "keeps_started orch m br s w (log_launch w1 mall brand stage av) = keeps_started orch m br s w w1"
  by (simp add: keeps_started_def started_of_def)

lemma keeps_started_refl:
  "row_of orch w m br s \<noteq> None \<Longrightarrow> keeps_started orch m br s w w"
  by (simp add: keeps_started_def)

lemma run_commands_keeps_started:
  "keeps_started orch m br s w0 w \<Longrightarrow>
     keeps_started orch m br s w0 (fst (run_commands e orch mall brand stage cs w))"
proof (induction cs arbitrary: w)
  case Nil
  then have "row_of orch w m br s \<noteq> None" by (simp add: keeps_started_def)
  from keeps_started_update [OF this] Nil show ?case
    by (auto intro: keeps_started_trans)
next
  case (Cons c cs)
  let ?w1 = "log_launch w mall brand stage (argv e c)"
  from Cons.prems have k1: "keeps_started orch m br s w0 ?w1" by simp
  then have ex: "row_of orch ?w1 m br s \<noteq> None" by (simp add: keeps_started_def)
  have upd: "keeps_started orch m br s w0 (update_stage_status e orch ?w1 mall brand stage st err)"
    for st err
    using keeps_started_update [OF ex] k1 by (blast intro: keeps_started_trans)
  show ?case
  proof (cases "popen e (argv e c)")
    case (Exit rc)
    show ?thesis
    proof (cases "rc = 0")
      case True
      with Exit Cons.IH [OF k1] show ?thesis by (simp add: Let_def)
    next
      case False
      with Exit upd show ?thesis by (simp add: Let_def)
    qed
  next
    case (Raised x)
    with upd show ?thesis by (simp add: Let_def)
  qed
qed

lemma stage_body_keeps_started:
  assumes "row_of orch w m br s \<noteq> None"
  shows "keeps_started orch m br s w (fst (stage_body e orch w b' s'))"
proof (cases rule: stage_body_cases [of orch w b' s' e])
  case already
  with assms show ?thesis by (simp add: keeps_started_refl)
next
  case skipped
  with assms show ?thesis by (simp add: keeps_started_update)
next
  case worked
  from run_commands_keeps_started [OF keeps_started_update [OF assms]] worked(2)
  show ?thesis by simp
qed

lemma pipeline_loop_keeps_started:
  "row_of orch w m br s \<noteq> None \<Longrightarrow>
     keeps_started orch m br s w (fst (pipeline_loop e orch b' ss w))"
proof (induction ss arbitrary: w)
  case Nil
  then show ?case by (simp add: keeps_started_refl)
next
  case (Cons x xs)
  note k = stage_body_keeps_started [OF Cons.prems, of e b' x]
  show ?case
  proof (cases rule: pipeline_loop_step [of e orch w b' x xs])
    case (1 w1)
    with k have k1: "keeps_started orch m br s w w1" by simp
    then have "row_of orch w1 m br s \<noteq> None" by (simp add: keeps_started_def)
    from Cons.IH [OF this] k1 1(2) show ?thesis
      by (auto intro: keeps_started_trans)
  next
    case (2 w1)
    with k show ?thesis by simp
  qed
qed

lemma exec_schedule_keeps_started:
  "row_of orch (sys_world st) m br s \<noteq> None \<Longrightarrow>
     keeps_started orch m br s (sys_world st) (sys_world (exec_schedule e orch brands sched st))"
proof (induction sched arbitrary: st)
  case Nil
  then show ?case by (simp add: keeps_started_refl)
next
  case (Cons t ts)
  show ?case
  proof (cases "thread_step e orch brands st t")
    case None
    with Cons show ?thesis by simp
  next
    case (Some st')
    from thread_step_world [OF Some] stage_body_keeps_started [OF Cons.prems] Cons.prems
    have k1: "keeps_started orch m br s (sys_world st) (sys_world st')"
      by (auto simp: keeps_started_refl)
    then have "row_of orch (sys_world st') m br s \<noteq> None"
      by (simp add: keeps_started_def)
    from Cons.IH [OF this] k1 Some show ?thesis
      by (auto intro: keeps_started_trans)
  qed
qed

text \<open>
  Claim C9, as the code has it. A write to an existing record changes its status, its
  error message and its \<open>updated_at\<close> and nothing else; the first write to a record inserts
  the row with \<open>started_at\<close> set to the time of that write, whatever the status written; no
  write touches the record of another key; and once a record exists its \<open>started_at\<close> is
  the same after any later write, stage body, pipeline or schedule of pipelines.
\<close>

theorem upsert_write_frame:
  "(row_of orch w m br s = Some r \<longrightarrow>
      row_of orch (update_stage_status e orch w m br s st err) m br s
        = Some (r\<lparr>c_status := st, c_error_msg := err, c_updated_at := Some (now e (ticks w))\<rparr>))
   \<and> (row_of orch w m br s = None \<and> batch_id orch \<noteq> None \<longrightarrow>
      row_of orch (update_stage_status e orch w m br s st err) m br s
        = Some \<lparr>c_batch_id = batch_id orch, c_mall_name = m, c_brand_name = br,
                c_run_mode = run_mode orch, c_stage = s, c_status = st, c_error_msg = err,
                c_started_at = Some (now e (ticks w)), c_updated_at = None\<rparr>)
   \<and> ((m', br', s') \<noteq> (m, br, s) \<longrightarrow>
      row_of orch (update_stage_status e orch w m br s st err) m' br' s' = row_of orch w m' br' s')
   \<and> (row_of orch w m br s \<noteq> None \<longrightarrow>
      keeps_started orch m br s w (update_stage_status e orch w m2 br2 s2 st err)
      \<and> keeps_started orch m br s w (fst (stage_body e orch w b s2))
      \<and> keeps_started orch m br s w (fst (process_brand_pipeline e orch w b))
      \<and> (sys_world sy = w \<longrightarrow>
           keeps_started orch m br s w (sys_world (exec_schedule e orch brands sched sy))))"
  using row_update_existing [of orch w m br s r e st err]
    row_update_new [of orch w m br s e st err]
    row_update_other [of m' br' s' m br s orch e w st err]
    keeps_started_update [of orch w m br s e m2 br2 s2 st err]
    stage_body_keeps_started [of orch w m br s e b s2]
    pipeline_loop_keeps_started [of orch w m br s e b "stages orch"]
    exec_schedule_keeps_started [of orch sy m br s e brands sched]
  by (auto simp: process_brand_pipeline_def)

theorem upsert_write_frame_witness:
  "row_of (ex_orch ''FULL'' ALL_STAGES) ex_world_done ''okmall'' ''AMI'' ''COLLECT'' \<noteq> None
   \<and> started_of (ex_orch ''FULL'' ALL_STAGES)
        (update_stage_status ex_env (ex_orch ''FULL'' ALL_STAGES) ex_world_done
           ''okmall'' ''AMI'' ''COLLECT'' ''RUNNING'' None) ''okmall'' ''AMI'' ''COLLECT''
       = Some (Some (ex_now 0))
   \<and> row_of (ex_orch ''FULL'' ALL_STAGES) ex_world ''okmall'' ''AMI'' ''COLLECT'' = None
   \<and> batch_id (ex_orch ''FULL'' ALL_STAGES) \<noteq> None
   \<and> started_of (ex_orch ''FULL'' ALL_STAGES)
        (update_stage_status ex_env (ex_orch ''FULL'' ALL_STAGES) ex_world
           ''okmall'' ''AMI'' ''COLLECT'' ''RUNNING'' None) ''okmall'' ''AMI'' ''COLLECT''
       = Some (Some (ex_now 0))
   \<and> (''okmall'', ''NIKE'', ''COLLECT'') \<noteq> (''okmall'', ''AMI'', ''COLLECT'')
   \<and> row_of (ex_orch ''FULL'' ALL_STAGES)
        (update_stage_status ex_env (ex_orch ''FULL'' ALL_STAGES) ex_world_done
           ''okmall'' ''AMI'' ''COLLECT'' ''RUNNING'' None) ''okmall'' ''NIKE'' ''COLLECT''
       = row_of (ex_orch ''FULL'' ALL_STAGES) ex_world_done ''okmall'' ''NIKE'' ''COLLECT''
   \<and> keeps_started (ex_orch ''FULL'' ALL_STAGES) ''okmall'' ''AMI'' ''COLLECT'' ex_world_done
        (sys_world (exec_schedule ex_env (ex_orch ''FULL'' ALL_STAGES) [ex_ami, ex_nike]
           [0, 1, 0, 0, 1, 1]
           (init_system (ex_orch ''FULL'' ALL_STAGES) [ex_ami, ex_nike] ex_world_done)))"
proof -
  let ?o = "ex_orch ''FULL'' ALL_STAGES"
  let ?sy = "init_system ?o [ex_ami, ex_nike] ex_world_done"
  let ?r = "\<lparr>c_batch_id = Some ''20260128_090000'', c_mall_name = ''okmall'', c_brand_name = ''AMI'',
          c_run_mode = ''FULL'', c_stage = ''COLLECT'', c_status = ''DONE'', c_error_msg = None,
          c_started_at = Some (ex_now 0), c_updated_at = Some (ex_now 1)\<rparr>"
  have r: "row_of ?o ex_world_done ''okmall'' ''AMI'' ''COLLECT'' = Some ?r"
    by (simp add: row_of_def ex_orch_def ex_world_done_def key_match_def)
  have n: "row_of ?o ex_world ''okmall'' ''AMI'' ''COLLECT'' = None"
    by (simp add: row_of_def ex_world_def)
  have b: "batch_id ?o \<noteq> None"
    by (simp add: ex_orch_def)
  have k: "(''okmall'', ''NIKE'', ''COLLECT'') \<noteq> (''okmall'', ''AMI'', ''COLLECT'')"
    by simp
  have i: "sys_world ?sy = ex_world_done"
    by (simp add: init_system_def)
  have t0: "now ex_env (ticks ex_world) = ex_now 0"
    by (simp add: ex_env_def ex_world_def)
  note t1 = upsert_write_frame [of ?o ex_world_done "''okmall''" "''AMI''" "''COLLECT''" ?r ex_env
      "''RUNNING''" None "''okmall''" "''NIKE''" "''COLLECT''" "''okmall''" "''AMI''" "''COLLECT''"
      ex_ami ?sy "[ex_ami, ex_nike]" "[0, 1, 0, 0, 1, 1]"]
  note t2 = upsert_write_frame [of ?o ex_world "''okmall''" "''AMI''" "''COLLECT''" ?r ex_env
      "''RUNNING''" None "''okmall''" "''NIKE''" "''COLLECT''" "''okmall''" "''AMI''" "''COLLECT''"
      ex_ami ?sy "[ex_ami, ex_nike]" "[0, 1, 0, 0, 1, 1]"]
  from t1 r have 1: "started_of ?o
        (update_stage_status ex_env ?o ex_world_done
           ''okmall'' ''AMI'' ''COLLECT'' ''RUNNING'' None) ''okmall'' ''AMI'' ''COLLECT''
       = Some (Some (ex_now 0))"
    by (simp add: started_of_def)
  from t2 n b t0 have 2: "started_of ?o
        (update_stage_status ex_env ?o ex_world
           ''okmall'' ''AMI'' ''COLLECT'' ''RUNNING'' None) ''okmall'' ''AMI'' ''COLLECT''
       = Some (Some (ex_now 0))"
    by (simp add: started_of_def)
  from t1 k have 3: "row_of ?o
        (update_stage_status ex_env ?o ex_world_done
           ''okmall'' ''AMI'' ''COLLECT'' ''RUNNING'' None) ''okmall'' ''NIKE'' ''COLLECT''
       = row_of ?o ex_world_done ''okmall'' ''NIKE'' ''COLLECT''"
    by blast
  from r have r': "row_of ?o ex_world_done ''okmall'' ''AMI'' ''COLLECT'' \<noteq> None"
    by simp
  from t1 r' i have 4: "keeps_started ?o ''okmall'' ''AMI'' ''COLLECT'' ex_world_done
        (sys_world (exec_schedule ex_env ?o [ex_ami, ex_nike] [0, 1, 0, 0, 1, 1] ?sy))"
    by blast
  from r' 1 n b 2 k 3 4 show ?thesis by blast
qed

text \<open>
  Claim C9 as stated fails where the first write to a record is not a transition into
  RUNNING: in PARTIAL mode the stage CONVERT of a brand with no record yet is written DONE, and
  that write sets \<open>started_at\<close>.
\<close>

theorem started_at_set_by_skip_write:
  "row_of (ex_orch ''PARTIAL'' ALL_STAGES) ex_world ''okmall'' ''AMI'' ''CONVERT'' = None
   \<and> get_stage_status (ex_orch ''PARTIAL'' ALL_STAGES)
        (fst (stage_body ex_env (ex_orch ''PARTIAL'' ALL_STAGES) ex_world ex_ami ''CONVERT''))
        ''okmall'' ''AMI'' ''CONVERT'' = ''DONE''
   \<and> started_of (ex_orch ''PARTIAL'' ALL_STAGES)
        (fst (stage_body ex_env (ex_orch ''PARTIAL'' ALL_STAGES) ex_world ex_ami ''CONVERT''))
        ''okmall'' ''AMI'' ''CONVERT'' = Some (Some (ex_now 0))"
  by (simp add: row_of_def started_of_def get_stage_status_def stage_body_def ex_orch_def
      ex_world_def ex_ami_def ex_env_def update_stage_status_def upsert_def key_match_def Let_def)

subsection \<open>The batch registry\<close>

lemma goc_existing:
  "find (running_in_mode (run_mode orch)) (pipeline_batches w) = Some r \<Longrightarrow>
     get_or_create_batch e orch w = (w, orch\<lparr>batch_id := Some (b_batch_id r)\<rparr>)"
  by (simp add: get_or_create_batch_def)

lemma goc_new:
  "find (running_in_mode (run_mode orch)) (pipeline_batches w) = None \<Longrightarrow>
     get_or_create_batch e orch w =
       (w\<lparr>pipeline_batches := pipeline_batches w @
             [\<lparr>b_batch_id = strftime (now e (ticks w)), b_run_mode = run_mode orch,
               b_status = ''RUNNING'', b_total_brands = None, b_success_brands = None,
               b_end_time = None\<rparr>],
           ticks := ticks w + 1\<rparr>,
        orch\<lparr>batch_id := Some (strftime (now e (ticks w)))\<rparr>)"
  by (simp add: get_or_create_batch_def Let_def)

lemma find_Some_in: "find P xs = Some x \<Longrightarrow> x \<in> set xs \<and> P x"
  by (induction xs) (auto split: if_splits)

lemma find_by_keys:
  assumes "map g xs = map g ys" and "\<And>r. P r = Q (g r)"
  shows "map_option g (find P xs) = map_option g (find P ys)"
  using assms(1)
proof (induction xs arbitrary: ys)
  case Nil
  then show ?case by simp
next
  case (Cons x xs)
  then obtain y ys' where ys: "ys = y # ys'" "g x = g y" "map g xs = map g ys'"
    by (cases ys) auto
  from Cons.IH [OF ys(3)] ys(1,2) assms(2) [of x] assms(2) [of y] show ?case
    by simp
qed

lemma running_key:
  "running_in_mode rm r = (case (b_batch_id r, b_run_mode r, b_status r) of
      (i, m, s) \<Rightarrow> s = ''RUNNING'' \<and> m = rm)"
  by (simp add: running_in_mode_def)

lemma goc_id:
  "batch_id (snd (get_or_create_batch e orch w)) =
     (case find (running_in_mode (run_mode orch)) (pipeline_batches w) of
        Some r \<Rightarrow> Some (b_batch_id r)
      | None \<Rightarrow> Some (strftime (now e (ticks w))))"
  by (simp add: get_or_create_batch_def Let_def split: option.splits)

lemma goc_then_found:
  "\<exists>r. find (running_in_mode (run_mode orch)) (pipeline_batches (fst (get_or_create_batch e orch w)))
          = Some r
        \<and> Some (b_batch_id r) = batch_id (snd (get_or_create_batch e orch w))"
proof (cases "find (running_in_mode (run_mode orch)) (pipeline_batches w)")
  case None
  then show ?thesis
    by (simp add: goc_new find_snoc running_in_mode_def)
next
  case (Some r)
  then show ?thesis by (simp add: goc_existing)
qed

lemma goc_by_keys:
  assumes k: "batch_keys w2 = batch_keys w1" and m: "run_mode orch2 = run_mode orch1"
    and f: "find (running_in_mode (run_mode orch1)) (pipeline_batches w1) = Some r"
  shows "fst (get_or_create_batch e2 orch2 w2) = w2"
    and "batch_id (snd (get_or_create_batch e2 orch2 w2)) = Some (b_batch_id r)"
proof -
  let ?g = "\<lambda>r. (b_batch_id r, b_run_mode r, b_status r)"
  from k have "map ?g (pipeline_batches w2) = map ?g (pipeline_batches w1)"
    by (simp add: batch_keys_def)
  from find_by_keys [OF this, of "running_in_mode (run_mode orch1)"
      "\<lambda>(i, m, s). s = ''RUNNING'' \<and> m = run_mode orch1"] f
  obtain r2 where r2: "find (running_in_mode (run_mode orch1)) (pipeline_batches w2) = Some r2"
      "b_batch_id r2 = b_batch_id r"
    by (auto simp: running_in_mode_def)
  from r2 m show "fst (get_or_create_batch e2 orch2 w2) = w2"
    and "batch_id (snd (get_or_create_batch e2 orch2 w2)) = Some (b_batch_id r)"
    by (simp_all add: goc_existing)
qed

lemma batch_keys_total [simp]:
  "batch_keys (set_total_brands orch w n) = batch_keys w"
  by (simp add: batch_keys_def set_total_brands_def comp_def)

lemma exec_schedule_batches:
  "pipeline_batches (sys_world (exec_schedule e orch brands sched st)) = pipeline_batches (sys_world st)"
proof (induction sched arbitrary: st)
  case Nil
  show ?case by simp
next
  case (Cons t ts)
  show ?case
  proof (cases "thread_step e orch brands st t")
    case None
    with Cons show ?thesis by simp
  next
    case (Some st')
    have "pipeline_batches (fst (stage_body e orch (sys_world st) (brands ! t) s))
            = pipeline_batches (sys_world st)" for s
      by (cases "stage_body e orch (sys_world st) (brands ! t) s") (simp add: stage_body_frame(1))
    with thread_step_world [OF Some] have "pipeline_batches (sys_world st') = pipeline_batches (sys_world st)"
      by auto
    with Cons.IH [of st'] Some show ?thesis by simp
  qed
qed

lemma interrupted_run_keys:
  "batch_keys (interrupted_run e orch w brands sched) = batch_keys (fst (get_or_create_batch e orch w))"
proof (cases "get_or_create_batch e orch w")
  case (Pair w1 orch1)
  have "batch_keys (sys_world (exec_schedule e orch1 brands sched
            (init_system orch1 brands (set_total_brands orch1 w1 (length brands)))))
        = batch_keys (set_total_brands orch1 w1 (length brands))"
    unfolding batch_keys_def exec_schedule_batches by (simp add: init_system_def)
  with Pair show ?thesis
    by (simp add: interrupted_run_def)
qed

text \<open>
  Claim C6. When a batch row with status RUNNING and the orchestrator's run mode exists,
  \<open>get_or_create_batch\<close> leaves the world as it is and returns the identifier of such a
  row. Otherwise it appends exactly one row, with status RUNNING, that run mode and the
  identifier formatted from the current time, and returns that identifier. A run interrupted
  after any schedule of its pipelines and then started again in the same run mode gets the
  same batch identifier and inserts no row.
\<close>

theorem get_or_create_batch_resumes:
  "(find (running_in_mode (run_mode orch)) (pipeline_batches w) = Some r \<longrightarrow>
      get_or_create_batch e orch w = (w, orch\<lparr>batch_id := Some (b_batch_id r)\<rparr>)
      \<and> r \<in> set (pipeline_batches w) \<and> b_status r = ''RUNNING'' \<and> b_run_mode r = run_mode orch)
   \<and> (find (running_in_mode (run_mode orch)) (pipeline_batches w) = None \<longrightarrow>
      get_or_create_batch e orch w =
        (w\<lparr>pipeline_batches := pipeline_batches w @
              [\<lparr>b_batch_id = strftime (now e (ticks w)), b_run_mode = run_mode orch,
                b_status = ''RUNNING'', b_total_brands = None, b_success_brands = None,
                b_end_time = None\<rparr>],
            ticks := ticks w + 1\<rparr>,
         orch\<lparr>batch_id := Some (strftime (now e (ticks w)))\<rparr>))
   \<and> ((find (running_in_mode (run_mode orch)) (pipeline_batches w) = None)
        = (\<not> (\<exists>r \<in> set (pipeline_batches w). b_status r = ''RUNNING'' \<and> b_run_mode r = run_mode orch)))
   \<and> (run_mode orch2 = run_mode orch \<longrightarrow>
        fst (get_or_create_batch e2 orch2 (interrupted_run e orch w brands sched))
          = interrupted_run e orch w brands sched
        \<and> batch_id (snd (get_or_create_batch e2 orch2 (interrupted_run e orch w brands sched)))
          = batch_id (snd (get_or_create_batch e orch w)))"
proof -
  have 1: "find (running_in_mode (run_mode orch)) (pipeline_batches w) = Some r \<longrightarrow>
      get_or_create_batch e orch w = (w, orch\<lparr>batch_id := Some (b_batch_id r)\<rparr>)
      \<and> r \<in> set (pipeline_batches w) \<and> b_status r = ''RUNNING'' \<and> b_run_mode r = run_mode orch"
    using find_Some_in [of "running_in_mode (run_mode orch)" "pipeline_batches w" r]
    by (auto simp: goc_existing running_in_mode_def)
  have 2: "(find (running_in_mode (run_mode orch)) (pipeline_batches w) = None)
        = (\<not> (\<exists>r \<in> set (pipeline_batches w). b_status r = ''RUNNING'' \<and> b_run_mode r = run_mode orch))"
    by (simp add: find_None_iff_key running_in_mode_def)
  have 3: "fst (get_or_create_batch e2 orch2 (interrupted_run e orch w brands sched))
          = interrupted_run e orch w brands sched
        \<and> batch_id (snd (get_or_create_batch e2 orch2 (interrupted_run e orch w brands sched)))
          = batch_id (snd (get_or_create_batch e orch w))"
    if m: "run_mode orch2 = run_mode orch"
  proof -
    from goc_then_found [of orch e w] obtain r1 where
      r1: "find (running_in_mode (run_mode orch)) (pipeline_batches (fst (get_or_create_batch e orch w)))
             = Some r1"
          "Some (b_batch_id r1) = batch_id (snd (get_or_create_batch e orch w))"
      by blast
    from goc_by_keys [OF interrupted_run_keys [of e orch w brands sched] m r1(1), of e2] r1(2)
    show ?thesis by simp
  qed
  from 1 2 3 goc_new [of orch w e] show ?thesis by blast
qed

lemma strftime_ex: "strftime (ex_now 0) = ''20260128_090000''"
  by code_simp

theorem get_or_create_batch_resumes_witness:
  "find (running_in_mode (run_mode (ex_orch ''FULL'' ALL_STAGES))) (pipeline_batches ex_world_running)
     = Some \<lparr>b_batch_id = ''20260128_090000'', b_run_mode = ''FULL'', b_status = ''RUNNING'',
             b_total_brands = Some 2, b_success_brands = None, b_end_time = None\<rparr>
   \<and> fst (get_or_create_batch ex_env (ex_orch ''FULL'' ALL_STAGES) ex_world_running) = ex_world_running
   \<and> batch_id (snd (get_or_create_batch ex_env (ex_orch ''FULL'' ALL_STAGES) ex_world_running))
       = Some ''20260128_090000''
   \<and> find (running_in_mode (run_mode (ex_orch ''FULL'' ALL_STAGES))) (pipeline_batches ex_world) = None
   \<and> batch_id (snd (get_or_create_batch ex_env (ex_orch ''FULL'' ALL_STAGES) ex_world))
       = Some ''20260128_090000''
   \<and> run_mode (ex_orch ''FULL'' [''COLLECT'']) = run_mode (ex_orch ''FULL'' ALL_STAGES)
   \<and> batch_id (snd (get_or_create_batch ex_env (ex_orch ''FULL'' [''COLLECT''])
         (interrupted_run ex_env (ex_orch ''FULL'' ALL_STAGES) ex_world [ex_ami, ex_nike] [0, 1, 0, 0])))
       = Some ''20260128_090000''"
proof -
  let ?o = "ex_orch ''FULL'' ALL_STAGES"
  let ?r = "\<lparr>b_batch_id = ''20260128_090000'', b_run_mode = ''FULL'', b_status = ''RUNNING'',
             b_total_brands = Some 2, b_success_brands = None, b_end_time = None\<rparr>"
  have f: "find (running_in_mode (run_mode ?o)) (pipeline_batches ex_world_running) = Some ?r"
    by (simp add: running_in_mode_def ex_orch_def ex_world_running_def)
  have n: "find (running_in_mode (run_mode ?o)) (pipeline_batches ex_world) = None"
    by (simp add: ex_world_def)
  have m: "run_mode (ex_orch ''FULL'' [''COLLECT'']) = run_mode ?o"
    by (simp add: ex_orch_def)
  have t: "strftime (now ex_env (ticks ex_world)) = ''20260128_090000''"
    by (simp add: ex_env_def ex_world_def strftime_ex)
  note t1 = get_or_create_batch_resumes [of ?o ex_world_running ?r ex_env
      "ex_orch ''FULL'' [''COLLECT'']" ex_env "[ex_ami, ex_nike]" "[0, 1, 0, 0]"]
  note t2 = get_or_create_batch_resumes [of ?o ex_world ?r ex_env
      "ex_orch ''FULL'' [''COLLECT'']" ex_env "[ex_ami, ex_nike]" "[0, 1, 0, 0]"]
  from t1 f have 1: "get_or_create_batch ex_env ?o ex_world_running
      = (ex_world_running, ?o\<lparr>batch_id := Some (b_batch_id ?r)\<rparr>)"
    by blast
  from t2 n have 2: "get_or_create_batch ex_env ?o ex_world =
        (ex_world\<lparr>pipeline_batches := pipeline_batches ex_world @
              [\<lparr>b_batch_id = strftime (now ex_env (ticks ex_world)), b_run_mode = run_mode ?o,
                b_status = ''RUNNING'', b_total_brands = None, b_success_brands = None,
                b_end_time = None\<rparr>],
            ticks := ticks ex_world + 1\<rparr>,
         ?o\<lparr>batch_id := Some (strftime (now ex_env (ticks ex_world)))\<rparr>)"
    by blast
  from 2 t have 3: "batch_id (snd (get_or_create_batch ex_env ?o ex_world)) = Some ''20260128_090000''"
    by simp
  from t2 m have "batch_id (snd (get_or_create_batch ex_env (ex_orch ''FULL'' [''COLLECT''])
         (interrupted_run ex_env ?o ex_world [ex_ami, ex_nike] [0, 1, 0, 0])))
       = batch_id (snd (get_or_create_batch ex_env ?o ex_world))"
    by blast
  with 3 have 4: "batch_id (snd (get_or_create_batch ex_env (ex_orch ''FULL'' [''COLLECT''])
         (interrupted_run ex_env ?o ex_world [ex_ami, ex_nike] [0, 1, 0, 0])))
       = Some ''20260128_090000''"
    by simp
  from 1 have 5: "fst (get_or_create_batch ex_env ?o ex_world_running) = ex_world_running"
    and 6: "batch_id (snd (get_or_create_batch ex_env ?o ex_world_running)) = Some ''20260128_090000''"
    by simp_all
  from f 5 6 n 3 m 4 show ?thesis by blast
qed

subsection \<open>A run with no target brand\<close>

lemma get_target_brands_batch_id [simp]:
  "get_target_brands (orch\<lparr>batch_id := x\<rparr>) catalog = get_target_brands orch catalog"
  by (simp add: get_target_brands_def mall_ok_def brand_ok_def not_excluded_def)

lemma goc_orch:
  "\<exists>x. snd (get_or_create_batch e orch w) = orch\<lparr>batch_id := Some x\<rparr>"
proof (cases "find (running_in_mode (run_mode orch)) (pipeline_batches w)")
  case None
  then have "snd (get_or_create_batch e orch w) = orch\<lparr>batch_id := Some (strftime (now e (ticks w)))\<rparr>"
    by (simp add: goc_new)
  then show ?thesis by (rule exI)
next
  case (Some r)
  then have "snd (get_or_create_batch e orch w) = orch\<lparr>batch_id := Some (b_batch_id r)\<rparr>"
    by (simp add: goc_existing)
  then show ?thesis by (rule exI)
qed

lemma goc_frame [simp]:
  "pipeline_control (fst (get_or_create_batch e orch w)) = pipeline_control w"
  "launched (fst (get_or_create_batch e orch w)) = launched w"
  by (cases "find (running_in_mode (run_mode orch)) (pipeline_batches w)";
      simp add: goc_new goc_existing)+

lemma set_total_frame [simp]:
  "pipeline_control (set_total_brands orch w n) = pipeline_control w"
  "launched (set_total_brands orch w n) = launched w"
  "map b_status (pipeline_batches (set_total_brands orch w n)) = map b_status (pipeline_batches w)"
  by (simp_all add: set_total_brands_def comp_def)

lemma set_total_row:
  assumes "r \<in> set (pipeline_batches w)" and "Some (b_batch_id r) = batch_id orch"
  shows "r\<lparr>b_total_brands := Some n\<rparr> \<in> set (pipeline_batches (set_total_brands orch w n))"
proof -
  let ?f = "\<lambda>r. if Some (b_batch_id r) = batch_id orch then r\<lparr>b_total_brands := Some n\<rparr> else r"
  from assms(2) have "?f r = r\<lparr>b_total_brands := Some n\<rparr>" by simp
  moreover from assms(1) have "?f r \<in> ?f ` set (pipeline_batches w)" by (rule imageI)
  ultimately show ?thesis by (simp add: set_total_brands_def)
qed

text \<open>
  Claim C10. When the catalogue query selects no brand, \<open>run\<close> ends with the fatal error
  raised by the thread pool for a width of 0, after the batch was opened or resumed and its
  brand count set to 0: the batch row is still RUNNING, no batch status has changed, no stage
  record was written and nothing was launched; \<open>finish_batch\<close> was not reached.
\<close>

theorem empty_target_list_is_fatal:
  assumes "get_target_brands orch catalog = []"
  shows "max_workers (snd (get_or_create_batch e orch w)) (get_target_brands orch catalog) = 0
       \<and> run e orch w catalog sched =
           (set_total_brands (snd (get_or_create_batch e orch w))
              (fst (get_or_create_batch e orch w)) 0, Fatal ValueError)
       \<and> pipeline_control (fst (run e orch w catalog sched)) = pipeline_control w
       \<and> launched (fst (run e orch w catalog sched)) = launched w
       \<and> map b_status (pipeline_batches (fst (run e orch w catalog sched)))
           = map b_status (pipeline_batches (fst (get_or_create_batch e orch w)))
       \<and> (\<exists>r. r \<in> set (pipeline_batches (fst (run e orch w catalog sched)))
             \<and> Some (b_batch_id r) = batch_id (snd (get_or_create_batch e orch w))
             \<and> b_status r = ''RUNNING'' \<and> b_run_mode r = run_mode orch
             \<and> b_total_brands r = Some 0)"
proof -
  obtain w1 orch1 where g: "get_or_create_batch e orch w = (w1, orch1)"
    by (cases "get_or_create_batch e orch w")
  from goc_orch [of e orch w] g obtain x where o1: "orch1 = orch\<lparr>batch_id := Some x\<rparr>"
    by auto
  from assms o1 have tb: "get_target_brands orch1 catalog = []" by simp
  have mw: "max_workers orch1 [] = 0" by (simp add: max_workers_def)
  from g tb mw have r: "run e orch w catalog sched = (set_total_brands orch1 w1 0, Fatal ValueError)"
    by (simp add: run_def Let_def)
  from goc_then_found [of orch e w] g obtain r1 where
    r1: "find (running_in_mode (run_mode orch)) (pipeline_batches w1) = Some r1"
        "Some (b_batch_id r1) = batch_id orch1"
    by auto
  from find_Some_in [OF r1(1)] have in1: "r1 \<in> set (pipeline_batches w1)"
    and run1: "b_status r1 = ''RUNNING''" "b_run_mode r1 = run_mode orch"
    by (simp_all add: running_in_mode_def)
  from set_total_row [OF in1 r1(2), of 0]
  have "r1\<lparr>b_total_brands := Some 0\<rparr> \<in> set (pipeline_batches (set_total_brands orch1 w1 0))" .
  with r1(2) run1 have ex: "\<exists>r. r \<in> set (pipeline_batches (set_total_brands orch1 w1 0))
             \<and> Some (b_batch_id r) = batch_id orch1
             \<and> b_status r = ''RUNNING'' \<and> b_run_mode r = run_mode orch
             \<and> b_total_brands r = Some 0"
    by (intro exI [of _ "r1\<lparr>b_total_brands := Some 0\<rparr>"]) simp
  from g have fr: "pipeline_control w1 = pipeline_control w" "launched w1 = launched w"
    using goc_frame [of e orch w] by simp_all
  from assms g mw r ex fr show ?thesis by simp
qed

theorem empty_target_list_is_fatal_witness:
  "get_target_brands ex_orch_gucci [ex_ami, ex_nike] = []
   \<and> snd (run ex_env ex_orch_gucci ex_world [ex_ami, ex_nike] [0, 1, 0]) = Fatal ValueError
   \<and> map b_status (pipeline_batches (fst (run ex_env ex_orch_gucci ex_world [ex_ami, ex_nike] [0, 1, 0])))
       = [''RUNNING'']
   \<and> pipeline_control (fst (run ex_env ex_orch_gucci ex_world [ex_ami, ex_nike] [0, 1, 0])) = []
   \<and> launched (fst (run ex_env ex_orch_gucci ex_world [ex_ami, ex_nike] [0, 1, 0])) = []"
proof -
  have upper_gucci: "upper ''gucci'' = ''GUCCI''" "upper ''AMI'' = ''AMI''" "upper ''NIKE'' = ''NIKE''"
    by code_simp+
  have h: "get_target_brands ex_orch_gucci [ex_ami, ex_nike] = []"
    by (simp add: get_target_brands_def ex_orch_gucci_def ex_ami_def ex_nike_def brand_ok_def
        upper_gucci)
  have n: "find (running_in_mode (run_mode ex_orch_gucci)) (pipeline_batches ex_world) = None"
    by (simp add: ex_world_def)
  have s: "map b_status (pipeline_batches (fst (get_or_create_batch ex_env ex_orch_gucci ex_world)))
             = [''RUNNING'']"
    unfolding goc_new [OF n] by (simp add: ex_world_def)
  have w0: "pipeline_control ex_world = []" "launched ex_world = []"
    by (simp_all add: ex_world_def)
  from empty_target_list_is_fatal [OF h, of ex_env ex_world "[0, 1, 0]"] h s w0
  show ?thesis by simp
qed

subsection \<open>Steps of the scheduler\<close>


lemma set_pc_fields [simp]:
  "pcs (set_pc st t p) = (pcs st)[t := p]"
  "sems (set_pc st t p) = sems st"
  "sys_world (set_pc st t p) = sys_world st"
  by (simp_all add: set_pc_def)







subsection \<open>Truncation of the stage list\<close>








end
